theory Spec2Isabelle
  imports Main "HOL-Library.Word"
begin

unbundle bit_operations_syntax

section \<open>Data model (types.ts)\<close>

text \<open>
  JavaScript strings are modelled as \<^typ>\<open>string\<close>; a character stands for one code unit
  below 256.  The numeric CSV columns (ranks, points, games, set counts) are modelled as
  \<^typ>\<open>int\<close>; an optional field \<open>f?: number\<close> is an \<^typ>\<open>int option\<close> with
  \<open>None\<close> for \<open>undefined\<close>.  Record fields carry a prefix naming their interface, since
  \<open>id\<close>, \<open>name\<close> and \<open>round\<close> occur in several interfaces of the source.
\<close>

datatype Round = R1 | R2 | R3 | R4 | QF | SF | F | RR | Q1 | Q2 | Q3

datatype Series = GrandSlam | Masters | ATP500 | ATP250
datatype Court = Indoor | Outdoor
datatype Surface = Hard | Clay | Grass | Carpet

record Player =
  p_id :: string
  p_name :: string

record Tournament =
  t_id :: string
  t_year :: "int option"
  t_name :: string
  t_location :: string
  t_series :: Series
  t_court :: Court
  t_surface :: Surface

record Match =
  m_id :: string
  m_tournamentId :: string
  m_date :: string
  m_round :: Round
  m_bestOf :: int
  m_winnerId :: string
  m_loserId :: string
  m_wRank :: "int option"
  m_lRank :: "int option"
  m_wPts :: "int option"
  m_lPts :: "int option"
  m_w :: "int list"
  m_l :: "int list"
  m_wsets :: int
  m_lsets :: int
  m_comment :: "string option"

record Derived =
  d_matchId :: string
  d_rankDiff :: "int option"
  d_ptsDiff :: "int option"
  d_totalGames :: "int option"
  d_setsPlayed :: int
  d_straightSets :: bool
  d_hasTiebreak :: bool
  d_upset :: "bool option"

record Attributes =
  a_round :: Round
  a_winnerName :: string
  a_loserName :: string
  a_score :: string

datatype BracketNode =
  BracketNode (n_name: string) (n_attributes: Attributes) (n_children: "BracketNode list")

section \<open>Platform functions on strings and numbers\<close>

text \<open>Rendering of an integer as by a template literal \<open>`${n}`\<close>.\<close>

definition digitChar :: "nat \<Rightarrow> char" where
  "digitChar d = ''0123456789'' ! d"

fun showNat :: "nat \<Rightarrow> string" where
  "showNat n = (if n < 10 then [digitChar n] else showNat (n div 10) @ [digitChar (n mod 10)])"

declare showNat.simps [simp del]

definition showInt :: "int \<Rightarrow> string" where
  "showInt i = (if i < 0 then CHR ''-'' # showNat (nat (- i)) else showNat (nat i))"

definition showNumber :: "int option \<Rightarrow> string" where
  "showNumber n = (case n of None \<Rightarrow> ''NaN'' | Some i \<Rightarrow> showInt i)"

text \<open>
  White space as \<open>String.prototype.trim\<close> and the regular expression class \<open>\s\<close> see it:
  the code units TAB, LF, VT, FF, CR, SP, NBSP, U+1680, U+2000 to U+200A, U+2028, U+2029,
  U+202F, U+205F, U+3000 and U+FEFF; among the characters of the model these are TAB, LF, VT,
  FF, CR, SP and NBSP.  The class \<open>\w\<close> is \<open>[A-Za-z0-9_]\<close>.
\<close>

definition isSpaceCode :: "int \<Rightarrow> bool" where
  "isSpaceCode n =
     (n \<in> {9, 10, 11, 12, 13, 32, 160, 5760, 8232, 8233, 8239, 8287, 12288, 65279}
      \<or> (8192 \<le> n \<and> n \<le> 8202))"

definition isSpace :: "char \<Rightarrow> bool" where
  "isSpace c = isSpaceCode (of_char c)"

definition isDigit :: "char \<Rightarrow> bool" where
  "isDigit c = (48 \<le> (of_char c :: nat) \<and> (of_char c :: nat) \<le> 57)"

definition isUpper :: "char \<Rightarrow> bool" where
  "isUpper c = (65 \<le> (of_char c :: nat) \<and> (of_char c :: nat) \<le> 90)"

definition isLower :: "char \<Rightarrow> bool" where
  "isLower c = (97 \<le> (of_char c :: nat) \<and> (of_char c :: nat) \<le> 122)"

definition isWord :: "char \<Rightarrow> bool" where
  "isWord c = (isDigit c \<or> isUpper c \<or> isLower c \<or> c = CHR ''_'')"

definition trimWith :: "('a \<Rightarrow> bool) \<Rightarrow> 'a list \<Rightarrow> 'a list" where
  "trimWith space s = rev (dropWhile space (rev (dropWhile space s)))"

definition trim :: "string \<Rightarrow> string" where
  "trim s = trimWith isSpace s"

text \<open>
  \<open>toLowerCase\<close> on the characters of the model: the letters A to Z and the letters U+00C0
  to U+00DE (the multiplication sign U+00D7 apart) move up by 32; every other character is
  left as it is.
\<close>

definition toLowerCase :: "string \<Rightarrow> string" where
  "toLowerCase s =
     map (\<lambda>c. let n = (of_char c :: nat)
              in if (65 \<le> n \<and> n \<le> 90) \<or> (192 \<le> n \<and> n \<le> 222 \<and> n \<noteq> 215)
                 then char_of (n + 32) else c) s"

text \<open>
  \<open>toUpperCase\<close> leaves the characters of the model: the upper case of U+00B5 is U+039C,
  that of U+00FF is U+0178, and that of U+00DF is the two letters \<open>SS\<close>.  Its result is
  therefore the list of the code units of the upper-case string; the letters a to z and the
  letters U+00E0 to U+00FE (the division sign U+00F7 apart) move down by 32.  \<open>codes s\<close>
  are the code units of a string of the model, and \<open>trimCodes\<close> is \<open>trim\<close> on code units.
\<close>

definition upperCodes :: "char \<Rightarrow> int list" where
  "upperCodes c =
     (let n = (of_char c :: int)
      in if 97 \<le> n \<and> n \<le> 122 then [n - 32]
         else if n = 181 then [924]
         else if n = 223 then [83, 83]
         else if 224 \<le> n \<and> n \<le> 254 \<and> n \<noteq> 247 then [n - 32]
         else if n = 255 then [376]
         else [n])"

definition toUpperCase :: "string \<Rightarrow> int list" where
  "toUpperCase s = concat (map upperCodes s)"

definition codes :: "string \<Rightarrow> int list" where
  "codes s = map of_char s"

definition trimCodes :: "int list \<Rightarrow> int list" where
  "trimCodes s = trimWith isSpaceCode s"

text \<open>\<open>s.includes(sub)\<close> and \<open>s.split(sep)\<close> for a one-character separator.\<close>

fun includesStr :: "'a list \<Rightarrow> 'a list \<Rightarrow> bool" where
  "includesStr [] sub = (sub = [])"
| "includesStr (c # cs) sub = (take (length sub) (c # cs) = sub \<or> includesStr cs sub)"

fun split :: "char \<Rightarrow> string \<Rightarrow> string list" where
  "split sep [] = [[]]"
| "split sep (c # cs) =
     (if c = sep then [] # split sep cs
      else (case split sep cs of [] \<Rightarrow> [[c]] | x # xs \<Rightarrow> (c # x) # xs))"

text \<open>Array indexing \<open>a[i]\<close>, \<open>undefined\<close> beyond the end.\<close>

definition elemAt :: "'a list \<Rightarrow> nat \<Rightarrow> 'a option" where
  "elemAt xs i = (if i < length xs then Some (xs ! i) else None)"

text \<open>
  \<open>parseInt(s)\<close> without a radix: leading white space is skipped, a sign is read, a prefix
  \<open>0x\<close> or \<open>0X\<close> selects base 16, and the longest prefix of digits is the value; \<open>None\<close>
  stands for \<open>NaN\<close>.  \<open>parseInt(undefined)\<close> is \<open>NaN\<close>.
\<close>

definition digitValue :: "char \<Rightarrow> nat" where
  "digitValue c =
     (if isDigit c then of_char c - 48
      else if isUpper c then of_char c - 55
      else if isLower c then of_char c - 87
      else 36)"

definition digitsValue :: "nat \<Rightarrow> string \<Rightarrow> nat option" where
  "digitsValue radix s =
     (let ds = takeWhile (\<lambda>c. digitValue c < radix) s
      in if ds = [] then None else Some (foldl (\<lambda>acc c. acc * radix + digitValue c) 0 ds))"

definition unsignedInt :: "string \<Rightarrow> nat option" where
  "unsignedInt s =
     (if take 2 s = ''0x'' \<or> take 2 s = ''0X'' then digitsValue 16 (drop 2 s)
      else digitsValue 10 s)"

definition parseInt :: "string option \<Rightarrow> int option" where
  "parseInt v =
     (case v of
        None \<Rightarrow> None
      | Some s \<Rightarrow>
          (case dropWhile isSpace s of
             [] \<Rightarrow> None
           | c # cs \<Rightarrow>
               if c = CHR ''-'' then map_option (\<lambda>n. - int n) (unsignedInt cs)
               else if c = CHR ''+'' then map_option int (unsignedInt cs)
               else map_option int (unsignedInt (c # cs))))"

text \<open>
  What the model takes from the platform: \<open>toNumber s\<close> is \<open>Number(s)\<close> on a trimmed,
  non-empty string, \<open>None\<close> for \<open>NaN\<close>; \<open>isoDate y m d\<close> is
  \<open>new Date(y, m, d).toISOString().split('T')[0]\<close>, which depends on the time zone of the
  process, and \<open>None\<close> when the date is an Invalid Date, on which \<open>toISOString\<close> throws a
  \<open>RangeError\<close>.
\<close>

record Platform =
  toNumber :: "string \<Rightarrow> int option"
  isoDate :: "int \<Rightarrow> int \<Rightarrow> int \<Rightarrow> string option"

datatype jsError = RangeError | TypeError

text \<open>\<open>Array.prototype.join\<close> on strings.\<close>

fun join :: "string \<Rightarrow> string list \<Rightarrow> string" where
  "join sep [] = []"
| "join sep [x] = x"
| "join sep (x # y # ys) = x @ sep @ join sep (y # ys)"

section \<open>Utility functions of the ingestion pipeline\<close>

text \<open>
  A field of a CSV row is a \<^typ>\<open>string option\<close>: \<open>None\<close> when the column is missing
  (\<open>undefined\<close>).  \<open>falsy v\<close> is the test \<open>!v\<close> on such a field.
\<close>

definition falsy :: "string option \<Rightarrow> bool" where
  "falsy v = (v = None \<or> v = Some [])"

definition normalizeValue :: "string option \<Rightarrow> string option" where
  "normalizeValue v =
     (case v of
        None \<Rightarrow> None
      | Some value \<Rightarrow>
          if value = [] \<or> trim value = [] \<or> toUpperCase (trim value) = codes ''N/A'' then None
          else Some (trim value))"

definition normalizeNumber :: "Platform \<Rightarrow> string option \<Rightarrow> int option" where
  "normalizeNumber pf v =
     (case normalizeValue v of None \<Rightarrow> None | Some normalized \<Rightarrow> toNumber pf normalized)"

text \<open>
  \<open>new Date(y, m, d).toISOString().split('T')[0]\<close> for arguments that may be \<open>NaN\<close>: a
  \<open>NaN\<close> argument gives an Invalid Date, and \<open>toISOString\<close> throws on it.
\<close>

definition dateToISO :: "Platform \<Rightarrow> int option \<Rightarrow> int option \<Rightarrow> int option \<Rightarrow> jsError + string" where
  "dateToISO pf y m d =
     (case (y, m, d) of
        (Some yv, Some mv, Some dv) \<Rightarrow>
          (case isoDate pf yv mv dv of None \<Rightarrow> Inl RangeError | Some isoString \<Rightarrow> Inr isoString)
      | _ \<Rightarrow> Inl RangeError)"

text \<open>
  \<open>parseDate\<close> returns the date string together with the messages it passes to
  \<open>console.warn\<close>; \<open>Inl\<close> is an exception leaving the function.
\<close>

definition parseDate :: "Platform \<Rightarrow> string \<Rightarrow> jsError + (string \<times> string list)" where
  "parseDate pf dateStr =
     (case normalizeValue (Some dateStr) of
        None \<Rightarrow> Inr ([], [])
      | Some normalized \<Rightarrow>
          (let dashed = split CHR ''-'' normalized;
               y = elemAt dashed 0; m = elemAt dashed 1; d = elemAt dashed 2
           in if includesStr normalized ''-'' \<and> map_option length y = Some 4 then
                map_sum id (\<lambda>isoString. (isoString, []))
                  (dateToISO pf (parseInt y) (map_option (\<lambda>n. n - 1) (parseInt m)) (parseInt d))
              else
                (let parts = split CHR ''/'' normalized
                 in if length parts = 3 then
                      (let month = elemAt parts 0; day = elemAt parts 1; year = elemAt parts 2;
                           fullYear =
                             (if map_option length year = Some 2 then map_option ((@) ''20'') year
                              else year)
                       in map_sum id (\<lambda>isoString. (isoString, []))
                            (dateToISO pf (parseInt fullYear)
                               (map_option (\<lambda>n. n - 1) (parseInt month)) (parseInt day)))
                    else Inr ([], [''Could not parse date: '' @ dateStr]))))"

text \<open>
  \<open>slugify\<close>: lower case, then the four \<open>replace\<close> calls of the source in their order,
  then \<open>trim\<close>.  \<open>replaceRuns P\<close> puts one hyphen in the place of every maximal run
  of characters satisfying \<open>P\<close>, as \<open>replace(/\s+/g, '-')\<close> and \<open>replace(/-+/g, '-')\<close>
  do.
\<close>

fun replaceRuns :: "(char \<Rightarrow> bool) \<Rightarrow> bool \<Rightarrow> string \<Rightarrow> string" where
  "replaceRuns P inRun [] = []"
| "replaceRuns P inRun (c # cs) =
     (if P c then (if inRun then replaceRuns P True cs else CHR ''-'' # replaceRuns P True cs)
      else c # replaceRuns P False cs)"

definition replaceSpaceRuns :: "string \<Rightarrow> string" where
  "replaceSpaceRuns s = replaceRuns isSpace False s"

definition replaceHyphenRuns :: "string \<Rightarrow> string" where
  "replaceHyphenRuns s = replaceRuns (\<lambda>c. c = CHR ''-'') False s"

definition slugify :: "string \<Rightarrow> string" where
  "slugify text =
     trim (replaceHyphenRuns (replaceSpaceRuns
       (filter (\<lambda>c. isWord c \<or> isSpace c \<or> c = CHR ''-'')
          (filter (\<lambda>c. c \<noteq> CHR ''.'') (toLowerCase text)))))"

text \<open>
  \<open>createPlayerID\<close> mutates the counter map \<open>existingIDs\<close>; the model returns the new map
  with the identifier.
\<close>

definition createPlayerID :: "string \<Rightarrow> (string \<rightharpoonup> nat) \<Rightarrow> string \<times> (string \<rightharpoonup> nat)" where
  "createPlayerID name existingIDs =
     (let base = slugify name
      in case existingIDs base of
           None \<Rightarrow> (base, existingIDs(base \<mapsto> 0))
         | Some c \<Rightarrow>
             (let count = c + 1
              in (base @ ''-'' @ showNat count, existingIDs(base \<mapsto> count))))"

text \<open>
  The hash loop.  \<open>hash\<close> is a JavaScript number holding a signed 32-bit value: the shift
  \<open>hash << 5\<close> yields a signed 32-bit value, the subtraction and the addition are exact, and
  \<open>hash & hash\<close> brings the sum back to a signed 32-bit value.
\<close>

definition toInt32 :: "int \<Rightarrow> int" where
  "toInt32 i = signed_take_bit 31 i"

definition shiftLeft :: "int \<Rightarrow> nat \<Rightarrow> int" where
  "shiftLeft x n = toInt32 (push_bit n (toInt32 x))"

definition hashStep :: "int \<Rightarrow> char \<Rightarrow> int" where
  "hashStep hash ch =
     (let char = int (of_char ch);
          hash1 = (shiftLeft hash 5 - hash) + char
      in toInt32 hash1 AND toInt32 hash1)"

definition hashString :: "string \<Rightarrow> int" where
  "hashString str = foldl hashStep 0 str"

definition createTournamentID :: "int option \<Rightarrow> string \<Rightarrow> string \<Rightarrow> string" where
  "createTournamentID year tournament location =
     (let str = showNumber year @ ''-'' @ tournament @ ''-'' @ location
      in ''t'' @ showInt \<bar>hashString str\<bar>)"

fun roundString :: "Round \<Rightarrow> string" where
  "roundString R1 = ''1R''"
| "roundString R2 = ''2R''"
| "roundString R3 = ''3R''"
| "roundString R4 = ''4R''"
| "roundString QF = ''QF''"
| "roundString SF = ''SF''"
| "roundString F = ''F''"
| "roundString RR = ''RR''"
| "roundString Q1 = ''Q1''"
| "roundString Q2 = ''Q2''"
| "roundString Q3 = ''Q3''"

definition createMatchID :: "string \<Rightarrow> string \<Rightarrow> Round \<Rightarrow> string \<Rightarrow> string \<Rightarrow> string" where
  "createMatchID tournamentId date round winnerId loserId =
     (let str = tournamentId @ ''-'' @ date @ ''-'' @ roundString round @ ''-'' @ winnerId
                @ ''-'' @ loserId
      in ''m'' @ showInt \<bar>hashString str\<bar>)"

text \<open>
  The categorical normalisers.  \<open>normalizeRound\<close> returns the round together with the
  messages it passes to \<open>console.warn\<close>.  \<open>orEmpty v\<close> is \<open>(v || '')\<close>.
\<close>

definition orEmpty :: "string option \<Rightarrow> string" where
  "orEmpty v = (case v of None \<Rightarrow> [] | Some s \<Rightarrow> s)"

definition normalizeRound :: "string option \<Rightarrow> Round \<times> string list" where
  "normalizeRound round =
     (let normalized = trim (toLowerCase (orEmpty round))
      in if includesStr normalized ''1st round'' \<or> normalized = ''1r'' then (R1, [])
         else if includesStr normalized ''2nd round'' \<or> normalized = ''2r'' then (R2, [])
         else if includesStr normalized ''3rd round'' \<or> normalized = ''3r'' then (R3, [])
         else if includesStr normalized ''4th round'' \<or> normalized = ''4r'' then (R4, [])
         else if includesStr normalized ''quarterfinal'' \<or> normalized = ''qf'' then (QF, [])
         else if includesStr normalized ''semifinal'' \<or> normalized = ''sf'' then (SF, [])
         else if includesStr normalized ''the final'' \<or>
                 (includesStr normalized ''final'' \<and> \<not> includesStr normalized ''semifinal'')
              then (F, [])
         else if includesStr normalized ''round robin'' \<or> normalized = ''rr'' then (RR, [])
         else if normalized = ''q1'' \<or> includesStr normalized ''qualifying 1'' then (Q1, [])
         else if normalized = ''q2'' \<or> includesStr normalized ''qualifying 2'' then (Q2, [])
         else if normalized = ''q3'' \<or> includesStr normalized ''qualifying 3'' then (Q3, [])
         else (R1, [''Unknown round type: ''
                    @ (case round of None \<Rightarrow> ''undefined'' | Some r \<Rightarrow> r)
                    @ ''. Defaulting to 1R.'']))"

definition normalizeSeries :: "string option \<Rightarrow> Series" where
  "normalizeSeries series =
     (let normalized = trimCodes (toUpperCase (orEmpty series))
      in if includesStr normalized (codes ''GRAND SLAM'') then GrandSlam
         else if includesStr normalized (codes ''MASTERS'') then Masters
         else if includesStr normalized (codes ''ATP500'') then ATP500
         else if includesStr normalized (codes ''ATP250'') then ATP250
         else ATP250)"

definition normalizeCourt :: "string option \<Rightarrow> Court" where
  "normalizeCourt court =
     (let normalized = trimCodes (toUpperCase (orEmpty court))
      in if includesStr normalized (codes ''INDOOR'') then Indoor else Outdoor)"

definition normalizeSurface :: "string option \<Rightarrow> Surface" where
  "normalizeSurface surface =
     (let normalized = trimCodes (toUpperCase (orEmpty surface))
      in if includesStr normalized (codes ''HARD'') then Hard
         else if includesStr normalized (codes ''CLAY'') then Clay
         else if includesStr normalized (codes ''GRASS'') then Grass
         else if includesStr normalized (codes ''CARPET'') then Carpet
         else Hard)"

section \<open>Derived statistics\<close>

text \<open>
  \<open>bothTruthy a b f\<close> is the conditional \<open>a && b ? f(a, b) : absent\<close> on two optional
  numbers: the condition is false when either is \<open>undefined\<close> or \<open>0\<close>.  \<open>orZero v\<close> is
  \<open>(v || 0)\<close>, which on these numbers is also \<open>(v ?? 0)\<close>.
\<close>

definition bothTruthy :: "int option \<Rightarrow> int option \<Rightarrow> (int \<Rightarrow> int \<Rightarrow> 'a) \<Rightarrow> 'a option" where
  "bothTruthy a b f =
     (case (a, b) of
        (Some x, Some y) \<Rightarrow> if x \<noteq> 0 \<and> y \<noteq> 0 then Some (f x y) else None
      | _ \<Rightarrow> None)"

definition orZero :: "int option \<Rightarrow> int" where
  "orZero v = (case v of None \<Rightarrow> 0 | Some n \<Rightarrow> n)"

definition computeDerived :: "Match \<Rightarrow> Derived" where
  "computeDerived match =
     (let rankDiff = bothTruthy (m_wRank match) (m_lRank match) (\<lambda>wRank lRank. wRank - lRank);
          ptsDiff = bothTruthy (m_wPts match) (m_lPts match) (\<lambda>wPts lPts. wPts - lPts);
          totalGames =
            foldl (\<lambda>sum (i, w). sum + w + orZero (elemAt (m_l match) i)) 0
              (enumerate 0 (m_w match));
          setsPlayed = m_wsets match + m_lsets match;
          straightSets = (m_lsets match = 0);
          hasTiebreak =
            list_ex (\<lambda>(i, w). let l = orZero (elemAt (m_l match) i)
                              in (w = 7 \<and> l \<ge> 5) \<or> (l = 7 \<and> w \<ge> 5))
              (enumerate 0 (m_w match));
          upset = bothTruthy (m_wRank match) (m_lRank match) (\<lambda>wRank lRank. lRank < wRank)
      in \<lparr>d_matchId = m_id match,
          d_rankDiff = rankDiff,
          d_ptsDiff = ptsDiff,
          d_totalGames = (if totalGames > 0 then Some totalGames else None),
          d_setsPlayed = setsPlayed,
          d_straightSets = straightSets,
          d_hasTiebreak = hasTiebreak,
          d_upset = upset\<rparr>)"

section \<open>Bracket reconstruction\<close>

text \<open>
  \<open>roundPrecedence\<close>: the round that feeds into a round.  The source is a partial record;
  a round without an entry (\<open>Q1\<close>, \<open>RR\<close>) reads as \<open>undefined\<close>, here \<open>None\<close>.
\<close>

fun roundPrecedence :: "Round \<Rightarrow> Round option" where
  "roundPrecedence F = Some SF"
| "roundPrecedence SF = Some QF"
| "roundPrecedence QF = Some R4"
| "roundPrecedence R4 = Some R3"
| "roundPrecedence R3 = Some R2"
| "roundPrecedence R2 = Some R1"
| "roundPrecedence R1 = Some Q3"
| "roundPrecedence Q3 = Some Q2"
| "roundPrecedence Q2 = Some Q1"
| "roundPrecedence Q1 = None"
| "roundPrecedence RR = None"

text \<open>
  \<open>formatScore\<close>: the template \<open>`${wScore}-${l[i]}`\<close> over the indices of \<open>w\<close>; an
  index beyond the end of \<open>l\<close> reads \<open>undefined\<close> and prints as such.
\<close>

definition scoreAt :: "int list \<Rightarrow> nat \<Rightarrow> string" where
  "scoreAt l i = (if i < length l then showInt (l ! i) else ''undefined'')"

definition setStrings :: "int list \<Rightarrow> int list \<Rightarrow> string list" where
  "setStrings w l = map (\<lambda>(i, wScore). showInt wScore @ ''-'' @ scoreAt l i) (enumerate 0 w)"

definition formatScore :: "int list \<Rightarrow> int list \<Rightarrow> string option \<Rightarrow> string" where
  "formatScore w l comment =
     (if comment = Some ''Retired'' then join '' '' (setStrings w l) @ '' (RET)''
      else join '' '' (setStrings w l))"

text \<open>\<open>playerMap.get(id)?.name || 'Unknown'\<close>: a missing player and an empty name both
  give \<open>'Unknown'\<close>.\<close>

definition playerName :: "(string \<rightharpoonup> Player) \<Rightarrow> string \<Rightarrow> string" where
  "playerName playerMap pid =
     (case playerMap pid of
        None \<Rightarrow> ''Unknown''
      | Some p \<Rightarrow> if p_name p = [] then ''Unknown'' else p_name p)"

text \<open>The position of a round in the precedence chain; it decreases along \<open>roundPrecedence\<close>.\<close>

fun roundRank :: "Round \<Rightarrow> nat" where
  "roundRank F = 9"
| "roundRank SF = 8"
| "roundRank QF = 7"
| "roundRank R4 = 6"
| "roundRank R3 = 5"
| "roundRank R2 = 4"
| "roundRank R1 = 3"
| "roundRank Q3 = 2"
| "roundRank Q2 = 1"
| "roundRank Q1 = 0"
| "roundRank RR = 0"

definition matchNode :: "(string \<rightharpoonup> Player) \<Rightarrow> Match \<Rightarrow> BracketNode list \<Rightarrow> BracketNode" where
  "matchNode playerMap currentMatch cs =
     (let winnerName = playerName playerMap (m_winnerId currentMatch);
          loserName = playerName playerMap (m_loserId currentMatch)
      in BracketNode (winnerName @ '' d. '' @ loserName)
           \<lparr>a_round = m_round currentMatch, a_winnerName = winnerName, a_loserName = loserName,
            a_score = formatScore (m_w currentMatch) (m_l currentMatch) (m_comment currentMatch)\<rparr>
           cs)"

definition byeNode :: "Round \<Rightarrow> string \<Rightarrow> BracketNode" where
  "byeNode childRound player =
     BracketNode player
       \<lparr>a_round = childRound, a_winnerName = player, a_loserName = ''BYE'', a_score = ''BYE''\<rparr>
       []"

function findChildrenForMatch ::
  "Match \<Rightarrow> Match list \<Rightarrow> (string \<rightharpoonup> Player) \<Rightarrow> BracketNode" where
  "findChildrenForMatch currentMatch allTournamentMatches playerMap =
     (case roundPrecedence (m_round currentMatch) of
        None \<Rightarrow> matchNode playerMap currentMatch []
      | Some childRound \<Rightarrow>
          (let child1 =
                 (case find (\<lambda>m. m_round m = childRound \<and> m_winnerId m = m_winnerId currentMatch)
                         allTournamentMatches of
                    Some winnerPrevMatch \<Rightarrow>
                      findChildrenForMatch winnerPrevMatch allTournamentMatches playerMap
                  | None \<Rightarrow> byeNode childRound (playerName playerMap (m_winnerId currentMatch)));
               child2 =
                 (case find (\<lambda>m. m_round m = childRound \<and> m_winnerId m = m_loserId currentMatch)
                         allTournamentMatches of
                    Some loserPrevMatch \<Rightarrow>
                      findChildrenForMatch loserPrevMatch allTournamentMatches playerMap
                  | None \<Rightarrow> byeNode childRound (playerName playerMap (m_loserId currentMatch)))
           in matchNode playerMap currentMatch [child1, child2]))"
  by pat_completeness auto
termination
  by (relation "measure (\<lambda>(m, ms, pm). roundRank (m_round m))")
     (auto simp: find_Some_iff elim!: roundPrecedence.elims)

declare findChildrenForMatch.simps [simp del]

text \<open>
  The subtree on one side of a match at round \<open>childRound\<close>: the reconstruction of the first
  match of that round won by the player, or the bye leaf of the player.
\<close>

definition sideNode ::
  "Round \<Rightarrow> string \<Rightarrow> Match list \<Rightarrow> (string \<rightharpoonup> Player) \<Rightarrow> BracketNode" where
  "sideNode childRound playerId allTournamentMatches playerMap =
     (case find (\<lambda>m. m_round m = childRound \<and> m_winnerId m = playerId) allTournamentMatches of
        Some prevMatch \<Rightarrow> findChildrenForMatch prevMatch allTournamentMatches playerMap
      | None \<Rightarrow> byeNode childRound (playerName playerMap playerId))"

text \<open>The depth of a tree; the root has depth 0, as in the hierarchy the viewer builds.\<close>

fun depth :: "BracketNode \<Rightarrow> nat" where
  "depth (BracketNode n a cs) = (if cs = [] then 0 else Suc (fold max (map depth cs) 0))"

fun allNodes :: "(BracketNode \<Rightarrow> bool) \<Rightarrow> BracketNode \<Rightarrow> bool" where
  "allNodes P (BracketNode n a cs) = (P (BracketNode n a cs) \<and> (\<forall>c \<in> set cs. allNodes P c))"

text \<open>A node has no child or exactly two; a binary tree has only such nodes.\<close>

definition zeroOrTwo :: "BracketNode \<Rightarrow> bool" where
  "zeroOrTwo n = (length (n_children n) = 0 \<or> length (n_children n) = 2)"

definition binaryTree :: "BracketNode \<Rightarrow> bool" where
  "binaryTree t = allNodes zeroOrTwo t"

text \<open>
  A node is a leaf, or its children are the winner-side subtree and the loser-side subtree,
  in that order, of one of the candidate matches.
\<close>

definition reconstructedNode ::
  "Match list \<Rightarrow> Match list \<Rightarrow> (string \<rightharpoonup> Player) \<Rightarrow> BracketNode \<Rightarrow> bool" where
  "reconstructedNode candidates ms pm n =
     (n_children n = [] \<or>
      list_ex (\<lambda>m. case roundPrecedence (m_round m) of
                       None \<Rightarrow> False
                     | Some cr \<Rightarrow>
                         n_children n =
                           [sideNode cr (m_winnerId m) ms pm, sideNode cr (m_loserId m) ms pm])
        candidates)"

text \<open>
  The two ways a node is named: a match node reads \<open>winner d. loser\<close>; a bye leaf carries
  the name of its player alone, with \<open>BYE\<close> as loser and score.
\<close>

definition matchNamed :: "BracketNode \<Rightarrow> bool" where
  "matchNamed n =
     (n_name n = a_winnerName (n_attributes n) @ '' d. '' @ a_loserName (n_attributes n))"

definition byeNamed :: "BracketNode \<Rightarrow> bool" where
  "byeNamed n =
     (n_name n = a_winnerName (n_attributes n) \<and> a_loserName (n_attributes n) = ''BYE'' \<and>
      a_score (n_attributes n) = ''BYE'' \<and> n_children n = [])"

definition matchOrByeNamed :: "BracketNode \<Rightarrow> bool" where
  "matchOrByeNamed n = (matchNamed n \<or> byeNamed n)"

text \<open>
  \<open>generateBracketData\<close>: the player map is filled in list order (a later player with the
  same id replaces an earlier one); the result lists the files written, as pairs of the
  tournament id naming the file and the tree in it.  The console messages are left out.
\<close>

definition generateBracketData ::
  "Match list \<Rightarrow> Player list \<Rightarrow> Tournament list \<Rightarrow> (string \<times> BracketNode) list" where
  "generateBracketData allMatches allPlayers allTournaments =
     (let playerMap = foldl (\<lambda>m p. m(p_id p \<mapsto> p)) Map.empty allPlayers
      in concat (map (\<lambda>tournament.
           (let tournamentMatches = filter (\<lambda>m. m_tournamentId m = t_id tournament) allMatches
            in if length tournamentMatches = 0 then []
               else (case find (\<lambda>m. m_round m = F) tournamentMatches of
                       None \<Rightarrow> []
                     | Some finalMatch \<Rightarrow>
                         [(t_id tournament,
                           findChildrenForMatch finalMatch tournamentMatches playerMap)])))
         allTournaments))"

section \<open>The ingestion loop\<close>

text \<open>The columns of a CSV row that the pipeline reads.\<close>

record CSVRow =
  c_Location :: "string option"
  c_Tournament :: "string option"
  c_Date :: "string option"
  c_Series :: "string option"
  c_Court :: "string option"
  c_Surface :: "string option"
  c_Round :: "string option"
  c_BestOf :: "string option"
  c_Winner :: "string option"
  c_Loser :: "string option"
  c_WRank :: "string option"
  c_LRank :: "string option"
  c_WPts :: "string option"
  c_LPts :: "string option"
  c_W1 :: "string option"
  c_L1 :: "string option"
  c_W2 :: "string option"
  c_L2 :: "string option"
  c_W3 :: "string option"
  c_L3 :: "string option"
  c_W4 :: "string option"
  c_L4 :: "string option"
  c_W5 :: "string option"
  c_L5 :: "string option"
  c_Wsets :: "string option"
  c_Lsets :: "string option"
  c_Comment :: "string option"

text \<open>The dynamic reads \<open>row[`W${i}`]\<close> and \<open>row[`L${i}`]\<close>.\<close>

definition wSlot :: "CSVRow \<Rightarrow> nat \<Rightarrow> string option" where
  "wSlot row i =
     (if i = 1 then c_W1 row else if i = 2 then c_W2 row else if i = 3 then c_W3 row
      else if i = 4 then c_W4 row else if i = 5 then c_W5 row else None)"

definition lSlot :: "CSVRow \<Rightarrow> nat \<Rightarrow> string option" where
  "lSlot row i =
     (if i = 1 then c_L1 row else if i = 2 then c_L2 row else if i = 3 then c_L3 row
      else if i = 4 then c_L4 row else if i = 5 then c_L5 row else None)"

text \<open>
  The set-score loop \<open>for (let i = 1; i <= 5; i++)\<close>, over the slot numbers still to visit;
  a \<open>push\<close> onto \<open>w\<close> and \<open>l\<close> is a cons in front of what the later slots push.
\<close>

fun scanSets :: "Platform \<Rightarrow> CSVRow \<Rightarrow> nat list \<Rightarrow> int list \<times> int list" where
  "scanSets pf row [] = ([], [])"
| "scanSets pf row (i # rest) =
     (let wScore = normalizeNumber pf (wSlot row i);
          lScore = normalizeNumber pf (lSlot row i)
      in if wScore \<noteq> None \<and> lScore \<noteq> None then
           (let (w, l) = scanSets pf row rest in (orZero wScore # w, orZero lScore # l))
         else if wScore \<noteq> None \<or> lScore \<noteq> None then
           (let (w, l) = scanSets pf row rest in (orZero wScore # w, orZero lScore # l))
         else ([], []))"


text \<open>
  A JavaScript \<open>Map\<close> keeps its entries in insertion order: it is an association list, and
  \<open>set\<close> replaces the value of a key in place or appends a new entry.
\<close>

fun setEntry :: "'k \<Rightarrow> 'v \<Rightarrow> ('k \<times> 'v) list \<Rightarrow> ('k \<times> 'v) list" where
  "setEntry k v [] = [(k, v)]"
| "setEntry k v (p # ps) = (if fst p = k then (k, v) # ps else p # setEntry k v ps)"

record IngestState =
  playersMap :: "(string \<times> Player) list"
  playerIDs :: "string \<rightharpoonup> nat"
  tournamentsMap :: "(string \<times> Tournament) list"
  allMatches :: "Match list"
  allDerived :: "Derived list"
  warnings :: "string list"

definition emptyState :: IngestState where
  "emptyState =
     \<lparr>playersMap = [], playerIDs = Map.empty, tournamentsMap = [], allMatches = [],
      allDerived = [], warnings = []\<rparr>"

text \<open>The block \<open>if (!playersMap.has(name)) { ... }\<close>.\<close>

definition ensurePlayer :: "string \<Rightarrow> IngestState \<Rightarrow> IngestState" where
  "ensurePlayer name st =
     (if map_of (playersMap st) name = None then
        (let (newId, ids) = createPlayerID name (playerIDs st)
         in st\<lparr>playersMap := setEntry name \<lparr>p_id = newId, p_name = name\<rparr> (playersMap st),
               playerIDs := ids\<rparr>)
      else st)"

text \<open>The block \<open>if (!tournamentsMap.has(tournamentKey)) { ... }\<close>.\<close>

definition ensureTournament ::
  "CSVRow \<Rightarrow> int option \<Rightarrow> string \<Rightarrow> string \<Rightarrow> string \<Rightarrow> IngestState \<Rightarrow> IngestState" where
  "ensureTournament row year tournamentName location tournamentKey st =
     (if map_of (tournamentsMap st) tournamentKey = None then
        (let tournamentId = createTournamentID year tournamentName location
         in st\<lparr>tournamentsMap :=
                 setEntry tournamentKey
                   \<lparr>t_id = tournamentId, t_year = year, t_name = tournamentName,
                    t_location = location, t_series = normalizeSeries (c_Series row),
                    t_court = normalizeCourt (c_Court row),
                    t_surface = normalizeSurface (c_Surface row)\<rparr>
                   (tournamentsMap st)\<rparr>)
      else st)"

text \<open>
  From the match id to the \<open>Match\<close> object: \<open>None\<close> when the row is skipped for having no
  score data.
\<close>

definition buildMatch ::
  "Platform \<Rightarrow> CSVRow \<Rightarrow> Tournament \<Rightarrow> string \<Rightarrow> Round \<Rightarrow> int \<Rightarrow> Player \<Rightarrow> Player \<Rightarrow> Match option" where
  "buildMatch pf row tournament date round bestOf winner loser =
     (let matchId = createMatchID (t_id tournament) date round (p_id winner) (p_id loser);
          (w, l) = scanSets pf row [1, 2, 3, 4, 5];
          wsets = normalizeNumber pf (c_Wsets row);
          lsets = normalizeNumber pf (c_Lsets row);
          comment = normalizeValue (c_Comment row)
      in if length w = 0 \<and> (wsets = Some 0 \<and> lsets = Some 0) \<and> comment \<noteq> Some ''Retired''
            \<and> comment \<noteq> Some ''Walkover''
         then None
         else Some
           \<lparr>m_id = matchId, m_tournamentId = t_id tournament, m_date = date, m_round = round,
            m_bestOf = bestOf, m_winnerId = p_id winner, m_loserId = p_id loser,
            m_wRank = normalizeNumber pf (c_WRank row), m_lRank = normalizeNumber pf (c_LRank row),
            m_wPts = normalizeNumber pf (c_WPts row), m_lPts = normalizeNumber pf (c_LPts row),
            m_w = w, m_l = l, m_wsets = orZero wsets, m_lsets = orZero lsets,
            m_comment = comment\<rparr>)"

text \<open>
  The body of the loop over the rows of a file, in three parts.  A \<open>continue\<close> returns the
  state reached so far; an exception leaves the loop with \<open>Inl\<close>.  The non-null assertions
  \<open>playersMap.get(name)!\<close> and \<open>tournamentsMap.get(key)!\<close> are reads of a property of
  \<open>undefined\<close> when the entry is missing, a \<open>TypeError\<close>.

  \<open>resolveAndBuild\<close> is the part from the player ids to the end of the body, for the
  normalised names of the two players.
\<close>

definition resolveAndBuild ::
  "Platform \<Rightarrow> IngestState \<Rightarrow> CSVRow \<Rightarrow> string \<Rightarrow> int option \<Rightarrow> Round \<Rightarrow> int \<Rightarrow> string \<Rightarrow> string
   \<Rightarrow> jsError + IngestState" where
  "resolveAndBuild pf st row date year round bestOf winnerName loserName =
     (let st3 = ensurePlayer loserName (ensurePlayer winnerName st)
      in case (map_of (playersMap st3) winnerName, map_of (playersMap st3) loserName) of
           (Some winner, Some loser) \<Rightarrow>
             (let tournamentName =
                    (case normalizeValue (c_Tournament row) of
                       None \<Rightarrow> ''Unknown Tournament'' | Some n \<Rightarrow> n);
                  location =
                    (case normalizeValue (c_Location row) of
                       None \<Rightarrow> ''Unknown Location'' | Some n \<Rightarrow> n);
                  tournamentKey = showNumber year @ ''-'' @ tournamentName @ ''-'' @ location;
                  st4 = ensureTournament row year tournamentName location tournamentKey st3
              in case map_of (tournamentsMap st4) tournamentKey of
                   None \<Rightarrow> Inl TypeError
                 | Some tournament \<Rightarrow>
                     (case buildMatch pf row tournament date round bestOf winner loser of
                        None \<Rightarrow> Inr st4
                      | Some match \<Rightarrow>
                          Inr (st4\<lparr>allMatches := allMatches st4 @ [match],
                                   allDerived := allDerived st4 @ [computeDerived match]\<rparr>)))
         | _ \<Rightarrow> Inl TypeError)"

text \<open>\<open>processDatedRow\<close> is the part after the date check, for the parsed date.\<close>

definition processDatedRow :: "Platform \<Rightarrow> IngestState \<Rightarrow> CSVRow \<Rightarrow> string \<Rightarrow> jsError + IngestState" where
  "processDatedRow pf st row date =
     (let year = parseInt (Some (take 4 date));
          (round, roundWarnings) = normalizeRound (c_Round row);
          st2 = st\<lparr>warnings := warnings st @ roundWarnings\<rparr>;
          bestOf = (if normalizeNumber pf (c_BestOf row) = Some 5 then 5 else 3)
      in case (normalizeValue (c_Winner row), normalizeValue (c_Loser row)) of
           (Some winnerName, Some loserName) \<Rightarrow>
             resolveAndBuild pf st2 row date year round bestOf winnerName loserName
         | _ \<Rightarrow> Inr st2)"

definition processRow :: "Platform \<Rightarrow> IngestState \<Rightarrow> CSVRow \<Rightarrow> jsError + IngestState" where
  "processRow pf st row =
     (if falsy (c_Tournament row) \<or> falsy (c_Winner row) \<or> falsy (c_Loser row)
         \<or> falsy (c_Date row)
      then Inr st
      else
        (case parseDate pf (orEmpty (c_Date row)) of
           Inl e \<Rightarrow> Inl e
         | Inr (date, dateWarnings) \<Rightarrow>
             (let st1 = st\<lparr>warnings := warnings st @ dateWarnings\<rparr>
              in if date = [] then Inr st1 else processDatedRow pf st1 row date)))"

fun processRows :: "Platform \<Rightarrow> IngestState \<Rightarrow> CSVRow list \<Rightarrow> jsError + IngestState" where
  "processRows pf st [] = Inr st"
| "processRows pf st (row # rows) =
     (case processRow pf st row of Inl e \<Rightarrow> Inl e | Inr st' \<Rightarrow> processRows pf st' rows)"

text \<open>The loop over the CSV files, each given as the list of its rows, on the shared state.\<close>

fun processFiles :: "Platform \<Rightarrow> IngestState \<Rightarrow> CSVRow list list \<Rightarrow> jsError + IngestState" where
  "processFiles pf st [] = Inr st"
| "processFiles pf st (rows # files) =
     (case processRows pf st rows of Inl e \<Rightarrow> Inl e | Inr st' \<Rightarrow> processFiles pf st' files)"

text \<open>
  \<open>ingest\<close>: without a CSV file the function returns before writing anything (\<open>Inr None\<close>);
  otherwise the consolidated state is what steps 5 to 8 write out.
\<close>

definition ingest :: "Platform \<Rightarrow> CSVRow list list \<Rightarrow> jsError + IngestState option" where
  "ingest pf csvFiles =
     (if length csvFiles = 0 then Inr None
      else map_sum id Some (processFiles pf emptyState csvFiles))"

definition players :: "IngestState \<Rightarrow> Player list" where
  "players st = map snd (playersMap st)"

definition tournaments :: "IngestState \<Rightarrow> Tournament list" where
  "tournaments st = map snd (tournamentsMap st)"

definition brackets :: "IngestState \<Rightarrow> (string \<times> BracketNode) list" where
  "brackets st = generateBracketData (allMatches st) (players st) (tournaments st)"


section \<open>The common-name pass (addCommonNames.ts)\<close>

text \<open>
  The pass works on the objects read from \<open>tournaments.json\<close>.  An object is the list of
  its properties in their order, which is the order \<open>JSON.stringify\<close> writes them in; the
  values of a tournament are strings and numbers.  \<open>new Map(entries)\<close> sets the entries in
  their order, so that a key reads the last entry given for it.
\<close>

datatype jvalue = JString string | JNumber int

type_synonym jobject = "(string \<times> jvalue) list"

definition nameMapEntries :: "(string \<times> string) list" where
  "nameMapEntries =
   [
    (''Brisbane International'', ''Brisbane International''),
    (''Hong Kong Tennis Open'', ''Hong Kong Open''),
    (''Adelaide International'', ''Adelaide International''),
    (''ASB Classic'', ''Auckland Open''),
    (''Australian Open'', ''Australian Open''),
    (''Open Sud de France'', ''Montpellier Open''),
    (''Dallas Open'', ''Dallas Open''),
    (''ABN AMRO World Tennis Tournament'', ''Rotterdam Open''),
    (''Argentina Open'', ''Buenos Aires Open''),
    (''Delray Beach Open'', ''Delray Beach Open''),
    (''Open 13'', ''Marseille Open''),
    (''Qatar Exxon Mobil Open'', ''Doha Open''),
    (''Rio Open'', ''Rio Open''),
    (''Abierto Mexicano'', ''Acapulco Open''),
    (''Dubai Tennis Championships'', ''Dubai Open''),
    (''Chile Open'', ''Santiago Open''),
    (''BNP Paribas Open'', ''Indian Wells''),
    (''Miami Open'', ''Miami Open''),
    (''Tiriac Open'', ''Bucharest Open''),
    ((''U.S. Men'' @ [CHR 0x27] @ ''s Clay Court Championships''), ''Houston Open''),
    (''Grand Prix Hassan II'', ''Marrakech Open''),
    (''Monte Carlo Masters'', ''Monte Carlo Masters''),
    (''Barcelona Open'', ''Barcelona Open''),
    (''BMW Open'', ''Munich Open''),
    (''Mutua Madrid Open'', ''Madrid Open''),
    ((''Internazionali BNL d'' @ [CHR 0x27] @ ''Italia''), ''Italian Open''),
    (''Geneva Open'', ''Geneva Open''),
    (''Hamburg Open'', ''Hamburg Open''),
    (''French Open'', ''French Open''),
    (''Stuttgart Open'', ''Stuttgart Open''),
    (''Rosmalen Grass Court Championships'', ''Rosmalen Open''),
    (''Halle Open'', ''Halle Open''),
    ((''Queen'' @ [CHR 0x27] @ ''s Club Championships''), (''Queen'' @ [CHR 0x27] @ ''s Club'')),
    (''Eastbourne International'', ''Eastbourne International''),
    (''Mallorca Championships'', ''Mallorca Open''),
    (''Wimbledon'', ''Wimbledon''),
    (''Nordea Open'', ''Swedish Open''),
    (''Suisse Open Gstaad'', ''Gstaad Open''),
    (''Los Cabos Open'', ''Los Cabos Open''),
    (''Generali Open'', (''Kitzb'' @ [CHR 0xFC] @ ''hel Open'')),
    (''Croatia Open'', ''Umag Open''),
    (''Citi Open'', ''Washington Open''),
    (''Canadian Open'', ''Canadian Open''),
    (''Western & Southern Financial Group Masters'', ''Cincinnati Masters''),
    (''Winston-Salem Open at Wake Forest University'', ''Winston-Salem Open''),
    (''US Open'', ''US Open''),
    (''Chengdu Open'', ''Chengdu Open''),
    (''Hangzhou Open'', ''Hangzhou Open''),
    (''China Open'', ''China Open''),
    (''Japan Open Tennis Championships'', ''Japan Open''),
    (''Shanghai Masters'', ''Shanghai Masters''),
    (''Almaty Open'', ''Almaty Open''),
    (''European Open'', ''Antwerp Open''),
    (''Nordic Open'', ''Stockholm Open''),
    (''Swiss Indoors'', ''Basel Open''),
    (''Vienna Open'', ''Vienna Open''),
    (''BNP Paribas Masters'', ''Paris Masters'')]"

definition nameMap :: "string \<rightharpoonup> string" where
  "nameMap = map_of (rev nameMapEntries)"

text \<open>
  The callback of \<open>tournaments.map\<close>, for any table: the spread
  \<open>{...tournament, commonName: v}\<close> keeps the properties in their order and sets
  \<open>commonName\<close>; the rest pattern \<open>{commonName: _, ...rest}\<close> keeps every other property.
\<close>

definition mergeCommonName :: "(string \<rightharpoonup> string) \<Rightarrow> jobject \<Rightarrow> jobject" where
  "mergeCommonName table tournament =
     (case map_of tournament ''name'' of
        Some (JString formalName) \<Rightarrow>
          (case table formalName of
             Some commonName \<Rightarrow> setEntry ''commonName'' (JString commonName) tournament
           | None \<Rightarrow> filter (\<lambda>p. fst p \<noteq> ''commonName'') tournament)
      | _ \<Rightarrow> filter (\<lambda>p. fst p \<noteq> ''commonName'') tournament)"

definition addCommonNames :: "jobject list \<Rightarrow> jobject list" where
  "addCommonNames tournamentList = map (mergeCommonName nameMap) tournamentList"

section \<open>A platform for evaluating the model\<close>

text \<open>
  The examples below run the model on a platform whose time zone is UTC.

  \<open>utcDate\<close> follows the Date constructor as the V8 engine of Node computes it: a year from
  0 to 99 is taken as 1900 plus that year; a year beyond 1000000 or a month index beyond
  10000000, either way, gives an Invalid Date; the month index carries over into the year,
  the day number counts on from the first of the month, and a time beyond 8.64e15
  milliseconds (100000000 days) from the epoch is an Invalid Date.  \<open>isoString\<close> is the
  date part of \<open>toISOString\<close>.
\<close>

definition daysFromCivil :: "int \<Rightarrow> int \<Rightarrow> int \<Rightarrow> int" where
  "daysFromCivil y m d =
     (let y1 = (if m \<le> 2 then y - 1 else y);
          era = y1 div 400;
          yoe = y1 - era * 400;
          mp = (m + 9) mod 12;
          doy = (153 * mp + 2) div 5 + d - 1;
          doe = yoe * 365 + yoe div 4 - yoe div 100 + doy
      in era * 146097 + doe - 719468)"

definition civilFromDays :: "int \<Rightarrow> int \<times> int \<times> int" where
  "civilFromDays z =
     (let z1 = z + 719468;
          era = z1 div 146097;
          doe = z1 - era * 146097;
          yoe = (doe - doe div 1460 + doe div 36524 - doe div 146096) div 365;
          doy = doe - (365 * yoe + yoe div 4 - yoe div 100);
          mp = (5 * doy + 2) div 153;
          d = doy - (153 * mp + 2) div 5 + 1;
          m = (if mp < 10 then mp + 3 else mp - 9);
          y = yoe + era * 400
      in (if m \<le> 2 then y + 1 else y, m, d))"

definition padStart :: "nat \<Rightarrow> string \<Rightarrow> string" where
  "padStart n s = replicate (n - length s) CHR ''0'' @ s"

definition isoString :: "int \<times> int \<times> int \<Rightarrow> string" where
  "isoString ymd =
     (case ymd of (y, m, d) \<Rightarrow>
        (if 0 \<le> y \<and> y \<le> 9999 then padStart 4 (showNat (nat y))
         else (if y < 0 then ''-'' else ''+'') @ padStart 6 (showNat (nat \<bar>y\<bar>)))
        @ ''-'' @ padStart 2 (showNat (nat m)) @ ''-'' @ padStart 2 (showNat (nat d)))"

definition utcDate :: "int \<Rightarrow> int \<Rightarrow> int \<Rightarrow> string option" where
  "utcDate y m d =
     (let yr = (if 0 \<le> y \<and> y \<le> 99 then 1900 + y else y)
      in if \<bar>yr\<bar> > 1000000 \<or> \<bar>m\<bar> > 10000000 then None
         else (let day = daysFromCivil (yr + m div 12) (m mod 12 + 1) 1 + d - 1
               in if \<bar>day\<bar> > 100000000 then None else Some (isoString (civilFromDays day))))"

text \<open>
  \<open>jsNumber s\<close> is \<open>Number(s)\<close> for a trimmed, non-empty string, by the grammar of numeric
  strings: a literal of base 16, 8 or 2 with its prefix and without a sign; or a decimal
  literal with an optional sign, digits with an optional fraction, or a fraction alone, and
  an optional exponent; anything else is \<open>NaN\<close>, here \<open>None\<close>.  The numbers of the model
  are integers: for a numeral whose value is not an integer of magnitude up to 2^53 (a
  fraction, \<open>Infinity\<close>, a value the engine rounds) the model has no number, and
  \<open>jsNumber\<close> gives \<open>None\<close> as well; the examples hold no such numeral.
\<close>

definition allDigits :: "nat \<Rightarrow> string \<Rightarrow> bool" where
  "allDigits radix s = (s \<noteq> [] \<and> list_all (\<lambda>c. digitValue c < radix) s)"

definition digitsNat :: "nat \<Rightarrow> string \<Rightarrow> nat" where
  "digitsNat radix s = foldl (\<lambda>acc c. acc * radix + digitValue c) 0 s"

definition radixLiteral :: "string \<Rightarrow> int option" where
  "radixLiteral s =
     (let radix = (if take 2 s = ''0x'' \<or> take 2 s = ''0X'' then 16
                   else if take 2 s = ''0o'' \<or> take 2 s = ''0O'' then 8
                   else if take 2 s = ''0b'' \<or> take 2 s = ''0B'' then 2
                   else (0::nat))
      in if radix \<noteq> 0 \<and> allDigits radix (drop 2 s) then Some (int (digitsNat radix (drop 2 s)))
         else None)"

definition exponentPart :: "string \<Rightarrow> int option" where
  "exponentPart s =
     (case s of
        [] \<Rightarrow> Some 0
      | e # rest \<Rightarrow>
          (case rest of
             [] \<Rightarrow> None
           | c # ds \<Rightarrow>
               if c = CHR ''-'' then (if allDigits 10 ds then Some (- int (digitsNat 10 ds)) else None)
               else if c = CHR ''+'' then (if allDigits 10 ds then Some (int (digitsNat 10 ds)) else None)
               else if allDigits 10 rest then Some (int (digitsNat 10 rest))
               else None))"

definition decimalLiteral :: "string \<Rightarrow> int option" where
  "decimalLiteral s =
     (let isE = (\<lambda>c. c = CHR ''e'' \<or> c = CHR ''E'');
          mantissa = takeWhile (\<lambda>c. \<not> isE c) s;
          integerPart = takeWhile (\<lambda>c. c \<noteq> CHR ''.'') mantissa;
          afterPoint = dropWhile (\<lambda>c. c \<noteq> CHR ''.'') mantissa;
          fraction = drop 1 afterPoint;
          mantissaOk =
            (if afterPoint = [] then allDigits 10 integerPart
             else list_all isDigit integerPart \<and> list_all isDigit fraction
                  \<and> (integerPart \<noteq> [] \<or> fraction \<noteq> []))
      in case exponentPart (dropWhile (\<lambda>c. \<not> isE c) s) of
           None \<Rightarrow> None
         | Some exponent \<Rightarrow>
             if \<not> mantissaOk then None
             else (let digits = int (digitsNat 10 (integerPart @ fraction));
                       shift = exponent - int (length fraction);
                       val = (if shift \<ge> 0 then Some (digits * 10 ^ nat shift)
                              else if digits mod 10 ^ nat (- shift) = 0
                                   then Some (digits div 10 ^ nat (- shift))
                              else None)
                   in case val of
                        None \<Rightarrow> None
                      | Some v \<Rightarrow> if v \<le> 9007199254740992 then Some v else None))"

definition jsNumber :: "string \<Rightarrow> int option" where
  "jsNumber s =
     (case s of
        [] \<Rightarrow> None
      | c # cs \<Rightarrow>
          if c = CHR ''-'' then map_option uminus (decimalLiteral cs)
          else if c = CHR ''+'' then decimalLiteral cs
          else (case radixLiteral s of Some v \<Rightarrow> (if v \<le> 9007199254740992 then Some v else None)
                | None \<Rightarrow> decimalLiteral s))"

definition utcPlatform :: Platform where
  "utcPlatform = \<lparr>toNumber = jsNumber, isoDate = utcDate\<rparr>"


section \<open>The identifier hash as the specification words it\<close>

text \<open>
  The specification describes the hash as the fold \<open>hash = hash * 31 + charCode\<close>, wrapped to
  a signed 32-bit value at each step and starting from 0.  \<open>wrap32\<close> is that wrap-around
  written out; \<open>specHash\<close> is compared with \<open>hashString\<close> of the source below.
\<close>

definition wrap32 :: "int \<Rightarrow> int" where
  "wrap32 x = (x + 2147483648) mod 4294967296 - 2147483648"

definition specHashStep :: "int \<Rightarrow> char \<Rightarrow> int" where
  "specHashStep hash ch = wrap32 (hash * 31 + int (of_char ch))"

definition specHash :: "string \<Rightarrow> int" where
  "specHash str = foldl specHashStep 0 str"

section \<open>The ingestion loop as the specification words it\<close>

text \<open>
  The set scores of a row, as the specification describes them: the five slots are read in
  order, and the recorded sets are the slots before the first one where both the winner's
  and the loser's games are absent.  \<open>scoredFrom pf row m\<close>: the score lists of the match
  \<open>m\<close> are the recorded sets of \<open>row\<close>, an absent side counting 0.
\<close>

definition slotScores :: "Platform \<Rightarrow> CSVRow \<Rightarrow> (int option \<times> int option) list" where
  "slotScores pf row =
     map (\<lambda>i. (normalizeNumber pf (wSlot row i), normalizeNumber pf (lSlot row i))) [1, 2, 3, 4, 5]"

definition recordedSets :: "Platform \<Rightarrow> CSVRow \<Rightarrow> (int option \<times> int option) list" where
  "recordedSets pf row = takeWhile (\<lambda>(w, l). w \<noteq> None \<or> l \<noteq> None) (slotScores pf row)"

definition scoredFrom :: "Platform \<Rightarrow> CSVRow \<Rightarrow> Match \<Rightarrow> bool" where
  "scoredFrom pf row m =
     (m_w m = map (\<lambda>(w, l). orZero w) (recordedSets pf row) \<and>
      m_l m = map (\<lambda>(w, l). orZero l) (recordedSets pf row))"

definition wellScored :: "Match \<Rightarrow> bool" where
  "wellScored m = (length (m_w m) = length (m_l m) \<and> length (m_w m) \<le> 5)"

text \<open>
  \<open>noScoreData\<close> is the condition under which the loop skips a row for having no score
  data, on the recorded sets: no recorded set, both set counts present and equal to 0, and a
  comment that is neither \<open>Retired\<close> nor \<open>Walkover\<close>.
\<close>

definition noScoreData :: "Platform \<Rightarrow> CSVRow \<Rightarrow> bool" where
  "noScoreData pf row =
     (recordedSets pf row = [] \<and>
      normalizeNumber pf (c_Wsets row) = Some 0 \<and> normalizeNumber pf (c_Lsets row) = Some 0 \<and>
      normalizeValue (c_Comment row) \<noteq> Some ''Retired'' \<and>
      normalizeValue (c_Comment row) \<noteq> Some ''Walkover'')"

text \<open>
  \<open>dateThrows\<close>: the row reaches \<open>parseDate\<close> and \<open>parseDate\<close> throws on its date.
  \<open>normalizerWarnings\<close> are the messages that \<open>parseDate\<close> and \<open>normalizeRound\<close> log for
  a row.
\<close>

definition dateThrows :: "Platform \<Rightarrow> CSVRow \<Rightarrow> bool" where
  "dateThrows pf row =
     (\<not> (falsy (c_Tournament row) \<or> falsy (c_Winner row) \<or> falsy (c_Loser row)
          \<or> falsy (c_Date row)) \<and>
      (case parseDate pf (orEmpty (c_Date row)) of Inl e \<Rightarrow> True | Inr r \<Rightarrow> False))"

definition normalizerWarnings :: "Platform \<Rightarrow> CSVRow \<Rightarrow> string list" where
  "normalizerWarnings pf row =
     (case parseDate pf (orEmpty (c_Date row)) of Inl e \<Rightarrow> [] | Inr (date, dateWarnings) \<Rightarrow> dateWarnings)
     @ snd (normalizeRound (c_Round row))"

text \<open>
  The players of a run.  \<open>rowPlayers\<close> are the normalised names that a row brings to the
  player registry, the winner's before the loser's: none when the row is skipped before the
  registry is reached.  \<open>namesEncountered\<close> is the sequence of these names over all rows of
  all files, \<open>ensurePlayers\<close> the registry block run on a sequence of names, and \<open>registry\<close>
  the two maps that the block works on.
\<close>

definition rowPlayers :: "Platform \<Rightarrow> CSVRow \<Rightarrow> string list" where
  "rowPlayers pf row =
     (if falsy (c_Tournament row) \<or> falsy (c_Winner row) \<or> falsy (c_Loser row)
         \<or> falsy (c_Date row)
      then []
      else
        (case parseDate pf (orEmpty (c_Date row)) of
           Inl e \<Rightarrow> []
         | Inr (date, dateWarnings) \<Rightarrow>
             if date = [] then []
             else (case (normalizeValue (c_Winner row), normalizeValue (c_Loser row)) of
                     (Some winnerName, Some loserName) \<Rightarrow> [winnerName, loserName]
                   | _ \<Rightarrow> [])))"

definition namesEncountered :: "Platform \<Rightarrow> CSVRow list list \<Rightarrow> string list" where
  "namesEncountered pf csvFiles = concat (map (rowPlayers pf) (concat csvFiles))"

definition ensurePlayers :: "string list \<Rightarrow> IngestState \<Rightarrow> IngestState" where
  "ensurePlayers names st = foldl (\<lambda>s n. ensurePlayer n s) st names"

definition registry :: "IngestState \<Rightarrow> (string \<times> Player) list \<times> (string \<rightharpoonup> nat)" where
  "registry st = (playersMap st, playerIDs st)"

text \<open>
  Player identifiers as the specification describes them.  \<open>firstOccurrences\<close> is the
  sequence of distinct names in the order of their first occurrence.  \<open>expectedId earlier
  name\<close> is the identifier of a new player, \<open>earlier\<close> being the distinct names before it:
  the bare slug when no earlier name has the same slug, and the slug followed by a hyphen and
  the number of earlier names with that slug otherwise.  \<open>expectedPlayers\<close> is the registry
  that results, in insertion order.
\<close>

definition firstOccurrences :: "string list \<Rightarrow> string list" where
  "firstOccurrences names = foldl (\<lambda>seen n. if n \<in> set seen then seen else seen @ [n]) [] names"

definition expectedId :: "string list \<Rightarrow> string \<Rightarrow> string" where
  "expectedId earlier name =
     (let slug = slugify name;
          n = length (filter (\<lambda>e. slugify e = slug) earlier)
      in if n = 0 then slug else slug @ ''-'' @ showNat n)"

fun assignIds :: "string list \<Rightarrow> string list \<Rightarrow> (string \<times> Player) list" where
  "assignIds earlier [] = []"
| "assignIds earlier (name # rest) =
     (name, \<lparr>p_id = expectedId earlier name, p_name = name\<rparr>) # assignIds (earlier @ [name]) rest"

definition expectedPlayers :: "string list \<Rightarrow> (string \<times> Player) list" where
  "expectedPlayers names = assignIds [] (firstOccurrences names)"

text \<open>
  The invariant of the registry block: after the distinct names \<open>ds\<close>, the player map holds
  their expected players, and the counter of a slug is the number of names with that slug
  less one.
\<close>

definition slugCount :: "string list \<Rightarrow> string \<Rightarrow> nat" where
  "slugCount ds s = length (filter (\<lambda>e. slugify e = s) ds)"

definition regInv :: "string list \<Rightarrow> IngestState \<Rightarrow> bool" where
  "regInv ds st =
     (playersMap st = assignIds [] ds \<and>
      (\<forall>s. playerIDs st s = (case slugCount ds s of 0 \<Rightarrow> None | Suc k \<Rightarrow> Some k)))"

section \<open>Example data\<close>

text \<open>
  A tournament with a final and its two semifinals and no earlier round; the loser of the
  second semifinal is missing from the player list.
\<close>

definition exMatch :: "Round \<Rightarrow> string \<Rightarrow> string \<Rightarrow> int list \<Rightarrow> int list \<Rightarrow> Match" where
  "exMatch r winnerId loserId w l =
     \<lparr>m_id = ''m'' @ roundString r @ winnerId, m_tournamentId = ''t1'', m_date = ''2024-01-28'',
      m_round = r, m_bestOf = 3, m_winnerId = winnerId, m_loserId = loserId,
      m_wRank = None, m_lRank = None, m_wPts = None, m_lPts = None,
      m_w = w, m_l = l, m_wsets = 2, m_lsets = 0, m_comment = None\<rparr>"

definition exFinal :: Match where
  "exFinal = exMatch F ''sinner-j'' ''medvedev-d'' [6, 6] [3, 4]"

definition exSemi1 :: Match where
  "exSemi1 = exMatch SF ''sinner-j'' ''djokovic-n'' [6, 7] [1, 6]"

definition exSemi2 :: Match where
  "exSemi2 = exMatch SF ''medvedev-d'' ''zverev-a'' [7, 6] [5, 3]"

definition exMatches :: "Match list" where
  "exMatches = [exSemi1, exSemi2, exFinal]"

definition exPlayers :: "Player list" where
  "exPlayers =
     [\<lparr>p_id = ''sinner-j'', p_name = ''Sinner J.''\<rparr>,
      \<lparr>p_id = ''medvedev-d'', p_name = ''Medvedev D.''\<rparr>,
      \<lparr>p_id = ''djokovic-n'', p_name = ''Djokovic N.''\<rparr>]"

definition exPlayerMap :: "string \<rightharpoonup> Player" where
  "exPlayerMap = foldl (\<lambda>m p. m(p_id p \<mapsto> p)) Map.empty exPlayers"

definition exTournament :: Tournament where
  "exTournament =
     \<lparr>t_id = ''t1'', t_year = Some 2024, t_name = ''Australian Open'', t_location = ''Melbourne'',
      t_series = GrandSlam, t_court = Outdoor, t_surface = Hard\<rparr>"

text \<open>The final of the example with the winner's rank read as 0 and the loser's as 5.\<close>

definition exRankZero :: Match where
  "exRankZero = exFinal\<lparr>m_wRank := Some 0, m_lRank := Some 5\<rparr>"

text \<open>
  Two objects of \<open>tournaments.json\<close>: one whose name is in the table, and one whose name is
  not and which carries a common name from an earlier table.
\<close>

definition exTournamentObjects :: "jobject list" where
  "exTournamentObjects =
     [[(''id'', JString ''t101''), (''year'', JNumber 2024),
       (''name'', JString ''BNP Paribas Open''), (''location'', JString ''Indian Wells'')],
      [(''id'', JString ''t102''), (''year'', JNumber 2024), (''name'', JString ''Laver Cup''),
       (''commonName'', JString ''Laver''), (''location'', JString ''Berlin'')]]"

text \<open>
  Rows of a CSV file.  \<open>exRow\<close> is a final that ended by retirement in the second set, whose
  second set has the winner's games only.  \<open>exRowNoScore\<close> has no set scores, set counts 2
  and 0 and the comment \<open>Completed\<close>.  \<open>exRowDiscarded\<close> has no set scores, set counts 0 and
  0 and the comment \<open>Completed\<close>.
\<close>

definition emptyRow :: CSVRow where
  "emptyRow =
     \<lparr>c_Location = None, c_Tournament = None, c_Date = None, c_Series = None, c_Court = None,
      c_Surface = None, c_Round = None, c_BestOf = None, c_Winner = None, c_Loser = None,
      c_WRank = None, c_LRank = None, c_WPts = None, c_LPts = None,
      c_W1 = None, c_L1 = None, c_W2 = None, c_L2 = None, c_W3 = None, c_L3 = None,
      c_W4 = None, c_L4 = None, c_W5 = None, c_L5 = None,
      c_Wsets = None, c_Lsets = None, c_Comment = None\<rparr>"

definition exRow :: CSVRow where
  "exRow =
     emptyRow\<lparr>c_Location := Some ''Melbourne'', c_Tournament := Some ''Australian Open'',
       c_Date := Some ''01/28/24'', c_Series := Some ''Grand Slam'', c_Court := Some ''Outdoor'',
       c_Surface := Some ''Hard'', c_Round := Some ''The Final'', c_BestOf := Some ''5'',
       c_Winner := Some ''Sinner J.'', c_Loser := Some ''Medvedev D.'',
       c_WRank := Some ''4'', c_LRank := Some ''3'',
       c_W1 := Some ''6'', c_L1 := Some ''4'', c_W2 := Some ''3'', c_L2 := Some '''',
       c_Wsets := Some ''1'', c_Lsets := Some ''0'', c_Comment := Some ''Retired''\<rparr>"

definition exRowNoScore :: CSVRow where
  "exRowNoScore =
     emptyRow\<lparr>c_Location := Some ''Melbourne'', c_Tournament := Some ''Australian Open'',
       c_Date := Some ''01/26/24'', c_Round := Some ''Semifinals'', c_BestOf := Some ''5'',
       c_Winner := Some ''Sinner J.'', c_Loser := Some ''Djokovic N.'',
       c_Wsets := Some ''2'', c_Lsets := Some ''0'', c_Comment := Some ''Completed''\<rparr>"

definition exRowDiscarded :: CSVRow where
  "exRowDiscarded = exRowNoScore\<lparr>c_Wsets := Some ''0''\<rparr>"

text \<open>
  \<open>exRowAlias\<close> is \<open>exRow\<close> with the winner's name written without the period, a different
  name with the same slug.  \<open>exFiles\<close> are two CSV files.
\<close>

definition exRowAlias :: CSVRow where
  "exRowAlias = exRow\<lparr>c_Winner := Some ''Sinner J''\<rparr>"

definition exFiles :: "CSVRow list list" where
  "exFiles = [[exRow, exRowDiscarded], [exRowAlias]]"

text \<open>\<open>exRowBadDate\<close> is \<open>exRow\<close> with a date of three parts that are not numbers.\<close>

definition exRowBadDate :: CSVRow where
  "exRowBadDate = exRow\<lparr>c_Date := Some ''a/b/c''\<rparr>"

section \<open>Verification: bracket reconstruction\<close>

lemma fcm_unfold:
  "findChildrenForMatch m ms pm =
     matchNode pm m
       (case roundPrecedence (m_round m) of
          None \<Rightarrow> []
        | Some cr \<Rightarrow> [sideNode cr (m_winnerId m) ms pm, sideNode cr (m_loserId m) ms pm])"
  by (subst findChildrenForMatch.simps) (simp add: sideNode_def Let_def split: option.split)

lemma find_round:
  "find (\<lambda>x. m_round x = cr \<and> m_winnerId x = pid) ms = Some prev \<Longrightarrow> m_round prev = cr"
  by (auto simp: find_Some_iff)

lemma roundPrecedence_rank:
  "roundPrecedence r = Some c \<Longrightarrow> roundRank r = Suc (roundRank c)"
  by (cases r) auto

lemma roundRank_le: "roundRank r \<le> 9"
  by (cases r) auto


lemma allNodes_iff: "allNodes P n = (P n \<and> (\<forall>c \<in> set (n_children n). allNodes P c))"
  by (cases n) simp

lemma allNodes_byeNode: "allNodes P (byeNode r p) = P (byeNode r p)"
  by (simp add: byeNode_def)

lemma n_children_matchNode [simp]: "n_children (matchNode pm m cs) = cs"
  by (simp add: matchNode_def Let_def)

lemma fcm_allNodes:
  assumes "\<forall>m. roundPrecedence (m_round m) = None \<longrightarrow> m \<in> S \<longrightarrow> P (matchNode pm m [])"
    and "\<forall>m cr. roundPrecedence (m_round m) = Some cr \<longrightarrow> m \<in> S \<longrightarrow>
           P (matchNode pm m [sideNode cr (m_winnerId m) ms pm, sideNode cr (m_loserId m) ms pm])"
    and "\<forall>r p. P (byeNode r p)"
    and "set ms \<subseteq> S" and "m \<in> S"
  shows "allNodes P (findChildrenForMatch m ms pm)"
  using assms
proof (induction m ms pm rule: findChildrenForMatch.induct)
  case (1 cm ms pm)
  show ?case
  proof (cases "roundPrecedence (m_round cm)")
    case None
    with "1.prems"(1,5) show ?thesis
      by (subst allNodes_iff) (simp add: fcm_unfold)
  next
    case (Some cr)
    have side: "allNodes P (sideNode cr pid ms pm)"
      if ih: "\<And>prev. find (\<lambda>x. m_round x = cr \<and> m_winnerId x = pid) ms = Some prev \<Longrightarrow>
                 allNodes P (findChildrenForMatch prev ms pm)" for pid
    proof (cases "find (\<lambda>x. m_round x = cr \<and> m_winnerId x = pid) ms")
      case None
      then show ?thesis using "1.prems"(3) by (simp add: sideNode_def allNodes_byeNode)
    next
      case (Some prev)
      then show ?thesis using ih by (simp add: sideNode_def)
    qed
    have inS: "prev \<in> S" if "find Q ms = Some prev" for Q prev
      using that "1.prems"(4) by (auto simp: find_Some_iff)
    have w: "allNodes P (sideNode cr (m_winnerId cm) ms pm)"
    proof (rule side)
      fix prev
      assume f: "find (\<lambda>x. m_round x = cr \<and> m_winnerId x = m_winnerId cm) ms = Some prev"
      show "allNodes P (findChildrenForMatch prev ms pm)"
        using "1.IH"(1)[OF Some f] "1.prems"(1,2,3,4) inS[OF f] by simp
    qed
    have l: "allNodes P (sideNode cr (m_loserId cm) ms pm)"
    proof (rule side)
      fix prev
      assume f: "find (\<lambda>x. m_round x = cr \<and> m_winnerId x = m_loserId cm) ms = Some prev"
      show "allNodes P (findChildrenForMatch prev ms pm)"
        using "1.IH"(2)[OF Some refl f] "1.prems"(1,2,3,4) inS[OF f] by simp
    qed
    from "1.prems"(2,5) w l Some show ?thesis
      by (subst allNodes_iff) (simp add: fcm_unfold)
  qed
qed

lemma fcm_depth: "depth (findChildrenForMatch m ms pm) \<le> roundRank (m_round m)"
proof (induction m ms pm rule: findChildrenForMatch.induct)
  case (1 cm ms pm)
  show ?case
  proof (cases "roundPrecedence (m_round cm)")
    case None
    then show ?thesis by (simp add: fcm_unfold matchNode_def Let_def)
  next
    case (Some cr)
    have side: "depth (sideNode cr pid ms pm) \<le> roundRank cr"
      if ih: "\<And>prev. find (\<lambda>x. m_round x = cr \<and> m_winnerId x = pid) ms = Some prev \<Longrightarrow>
                 depth (findChildrenForMatch prev ms pm) \<le> roundRank (m_round prev)" for pid
    proof (cases "find (\<lambda>x. m_round x = cr \<and> m_winnerId x = pid) ms")
      case None
      then show ?thesis by (simp add: sideNode_def byeNode_def)
    next
      case (Some prev)
      with ih[OF Some] find_round[OF Some] show ?thesis by (simp add: sideNode_def)
    qed
    have w: "depth (sideNode cr (m_winnerId cm) ms pm) \<le> roundRank cr"
      by (rule side) (rule "1.IH"(1)[OF Some])
    have l: "depth (sideNode cr (m_loserId cm) ms pm) \<le> roundRank cr"
      by (rule side) (rule "1.IH"(2)[OF Some refl])
    from w l roundPrecedence_rank[OF Some] Some show ?thesis
      by (simp add: fcm_unfold matchNode_def Let_def)
  qed
qed


lemma playerName_exPlayerMap:
  "playerName exPlayerMap ''sinner-j'' = ''Sinner J.''"
  "playerName exPlayerMap ''medvedev-d'' = ''Medvedev D.''"
  "playerName exPlayerMap ''djokovic-n'' = ''Djokovic N.''"
  "playerName exPlayerMap ''zverev-a'' = ''Unknown''"
  by (simp_all add: playerName_def exPlayerMap_def exPlayers_def)

lemma sideNode_bye:
  "\<forall>x \<in> set ms. \<not> (m_round x = cr \<and> m_winnerId x = pid) \<Longrightarrow>
   sideNode cr pid ms pm = byeNode cr (playerName pm pid)"
proof -
  assume "\<forall>x \<in> set ms. \<not> (m_round x = cr \<and> m_winnerId x = pid)"
  then have "find (\<lambda>m. m_round m = cr \<and> m_winnerId m = pid) ms = None"
    by (auto simp: find_None_iff)
  then show ?thesis by (simp add: sideNode_def)
qed

lemma reconstructedNode_matchNode:
  "roundPrecedence (m_round m) = Some cr \<Longrightarrow> m \<in> set candidates \<Longrightarrow>
   reconstructedNode candidates ms pm
     (matchNode pm m [sideNode cr (m_winnerId m) ms pm, sideNode cr (m_loserId m) ms pm])"
  by (auto simp: reconstructedNode_def list_ex_iff intro!: bexI[of _ m])


text \<open>
  C1.  Every tree built by \<open>findChildrenForMatch\<close>, for every match, match list and player
  map, is a binary tree: each node has no child or exactly two.  Every node with children
  has as children the winner-side subtree followed by the loser-side subtree of a match, and
  so has the root.  The depth of the tree is at most 9, the number of steps of the round
  precedence chain.  The same holds of every tree that \<open>generateBracketData\<close> writes.
\<close>

theorem bracket_tree_shape:
  "binaryTree (findChildrenForMatch m ms pm) \<and>
   allNodes (reconstructedNode (m # ms) ms pm) (findChildrenForMatch m ms pm) \<and>
   n_children (findChildrenForMatch m ms pm) =
     (case roundPrecedence (m_round m) of
        None \<Rightarrow> []
      | Some childRound \<Rightarrow>
          [sideNode childRound (m_winnerId m) ms pm, sideNode childRound (m_loserId m) ms pm]) \<and>
   depth (findChildrenForMatch m ms pm) \<le> 9 \<and>
   (\<forall>(tournamentId, tree) \<in> set (generateBracketData matches playerList tournamentList).
      binaryTree tree \<and> depth tree \<le> 9)"
proof -
  have bin: "binaryTree (findChildrenForMatch m' ms' pm')" for m' ms' pm'
    unfolding binaryTree_def
    by (rule fcm_allNodes[where S = UNIV]) (simp_all add: zeroOrTwo_def byeNode_def)
  have dep: "depth (findChildrenForMatch m' ms' pm') \<le> 9" for m' ms' pm'
    using fcm_depth[of m' ms' pm'] roundRank_le[of "m_round m'"] by (rule order_trans)
  have rec: "allNodes (reconstructedNode (m # ms) ms pm) (findChildrenForMatch m ms pm)"
    by (rule fcm_allNodes[where S = "set (m # ms)"])
       (auto simp: reconstructedNode_matchNode, simp_all add: reconstructedNode_def byeNode_def)
  have ch: "n_children (findChildrenForMatch m ms pm) =
     (case roundPrecedence (m_round m) of
        None \<Rightarrow> []
      | Some childRound \<Rightarrow>
          [sideNode childRound (m_winnerId m) ms pm, sideNode childRound (m_loserId m) ms pm])"
    by (simp add: fcm_unfold)
  have gen: "\<forall>(tournamentId, tree) \<in> set (generateBracketData matches playerList tournamentList).
      binaryTree tree \<and> depth tree \<le> 9"
    by (auto simp: generateBracketData_def Let_def bin dep split: if_splits option.splits)
  from bin dep rec ch gen show ?thesis by blast
qed

theorem bracket_tree_shape_witness:
  "generateBracketData exMatches exPlayers [exTournament] =
     [(''t1'', findChildrenForMatch exFinal exMatches exPlayerMap)] \<and>
   n_children (findChildrenForMatch exFinal exMatches exPlayerMap) =
     [findChildrenForMatch exSemi1 exMatches exPlayerMap,
      findChildrenForMatch exSemi2 exMatches exPlayerMap] \<and>
   binaryTree (findChildrenForMatch exFinal exMatches exPlayerMap) \<and>
   depth (findChildrenForMatch exFinal exMatches exPlayerMap) \<le> 9"
proof -
  have g: "generateBracketData exMatches exPlayers [exTournament] =
     [(''t1'', findChildrenForMatch exFinal exMatches exPlayerMap)]"
    by (simp add: generateBracketData_def exMatches_def exSemi1_def exSemi2_def exFinal_def
          exMatch_def exTournament_def exPlayerMap_def)
  have s: "sideNode SF ''sinner-j'' exMatches exPlayerMap =
             findChildrenForMatch exSemi1 exMatches exPlayerMap"
          "sideNode SF ''medvedev-d'' exMatches exPlayerMap =
             findChildrenForMatch exSemi2 exMatches exPlayerMap"
    by (simp_all add: sideNode_def exMatches_def exSemi1_def exSemi2_def exFinal_def exMatch_def)
  have f: "m_round exFinal = F" "m_winnerId exFinal = ''sinner-j''"
    "m_loserId exFinal = ''medvedev-d''"
    by (simp_all add: exFinal_def exMatch_def)
  from bracket_tree_shape[of exFinal exMatches exPlayerMap exMatches exPlayers "[exTournament]"]
  show ?thesis by (simp add: g f s)
qed

text \<open>
  C2.  For a match whose round has a preceding round \<open>childRound\<close>: when no match of the
  list is of that round and won by the winner of the match, the first child is the bye leaf
  of the winner, with round \<open>childRound\<close>, loser \<open>BYE\<close>, score \<open>BYE\<close> and no children;
  likewise the second child for the loser.  In particular a semifinal in a list without
  quarterfinal matches is a node of round \<open>SF\<close> whose two children are bye leaves of round
  \<open>QF\<close>.
\<close>

theorem bye_leaf_for_missing_match:
  assumes "roundPrecedence (m_round m) = Some childRound"
  shows "((\<forall>x \<in> set ms. \<not> (m_round x = childRound \<and> m_winnerId x = m_winnerId m)) \<longrightarrow>
            n_children (findChildrenForMatch m ms pm) ! 0 =
              BracketNode (playerName pm (m_winnerId m))
                \<lparr>a_round = childRound, a_winnerName = playerName pm (m_winnerId m),
                 a_loserName = ''BYE'', a_score = ''BYE''\<rparr> []) \<and>
         ((\<forall>x \<in> set ms. \<not> (m_round x = childRound \<and> m_winnerId x = m_loserId m)) \<longrightarrow>
            n_children (findChildrenForMatch m ms pm) ! 1 =
              BracketNode (playerName pm (m_loserId m))
                \<lparr>a_round = childRound, a_winnerName = playerName pm (m_loserId m),
                 a_loserName = ''BYE'', a_score = ''BYE''\<rparr> []) \<and>
         (m_round m = SF \<and> (\<forall>x \<in> set ms. m_round x \<noteq> QF) \<longrightarrow>
            a_round (n_attributes (findChildrenForMatch m ms pm)) = SF \<and>
            n_children (findChildrenForMatch m ms pm) =
              [BracketNode (playerName pm (m_winnerId m))
                 \<lparr>a_round = QF, a_winnerName = playerName pm (m_winnerId m),
                  a_loserName = ''BYE'', a_score = ''BYE''\<rparr> [],
               BracketNode (playerName pm (m_loserId m))
                 \<lparr>a_round = QF, a_winnerName = playerName pm (m_loserId m),
                  a_loserName = ''BYE'', a_score = ''BYE''\<rparr> []])"
  using assms
  by (auto simp: fcm_unfold sideNode_bye byeNode_def matchNode_def Let_def)

theorem bye_leaf_for_missing_match_witness:
  "roundPrecedence (m_round exSemi1) = Some QF \<and>
   map m_round exMatches = [SF, SF, F] \<and>
   n_children (findChildrenForMatch exSemi1 exMatches exPlayerMap) =
     [BracketNode ''Sinner J.''
        \<lparr>a_round = QF, a_winnerName = ''Sinner J.'', a_loserName = ''BYE'', a_score = ''BYE''\<rparr> [],
      BracketNode ''Djokovic N.''
        \<lparr>a_round = QF, a_winnerName = ''Djokovic N.'', a_loserName = ''BYE'', a_score = ''BYE''\<rparr> []]"
proof -
  have r: "roundPrecedence (m_round exSemi1) = Some QF"
    by (simp add: exSemi1_def exMatch_def)
  have q: "\<forall>x \<in> set exMatches. m_round x \<noteq> QF"
    by (simp add: exMatches_def exSemi1_def exSemi2_def exFinal_def exMatch_def)
  have s: "m_round exSemi1 = SF" "m_winnerId exSemi1 = ''sinner-j''"
    "m_loserId exSemi1 = ''djokovic-n''"
    by (simp_all add: exSemi1_def exMatch_def)
  have rs: "map m_round exMatches = [SF, SF, F]"
    by (simp add: exMatches_def exSemi1_def exSemi2_def exFinal_def exMatch_def)
  from bye_leaf_for_missing_match[OF r, of exMatches exPlayerMap] q s show ?thesis
    by (simp add: r rs playerName_exPlayerMap)
qed

text \<open>
  C10 (as amended).  \<open>findChildrenForMatch\<close> is a total function of the match, the match
  list and the player map.  A participant without an entry in the player map is named
  \<open>Unknown\<close>.  The node of a match is named \<open>winner d. loser\<close> from these names, and every
  node of the tree is either named in this way or is a bye leaf, which is named by its player
  alone.
\<close>

theorem node_names:
  "n_name (findChildrenForMatch m ms pm) =
     playerName pm (m_winnerId m) @ '' d. '' @ playerName pm (m_loserId m) \<and>
   a_winnerName (n_attributes (findChildrenForMatch m ms pm)) = playerName pm (m_winnerId m) \<and>
   a_loserName (n_attributes (findChildrenForMatch m ms pm)) = playerName pm (m_loserId m) \<and>
   (pm (m_winnerId m) = None \<longrightarrow> playerName pm (m_winnerId m) = ''Unknown'') \<and>
   (pm (m_loserId m) = None \<longrightarrow> playerName pm (m_loserId m) = ''Unknown'') \<and>
   allNodes matchOrByeNamed (findChildrenForMatch m ms pm)"
proof -
  have "allNodes matchOrByeNamed (findChildrenForMatch m ms pm)"
    by (rule fcm_allNodes[where S = UNIV])
       (simp_all add: matchOrByeNamed_def matchNamed_def byeNamed_def matchNode_def byeNode_def
          Let_def)
  then show ?thesis
    by (simp add: fcm_unfold matchNode_def Let_def playerName_def)
qed

theorem node_names_witness:
  "exPlayerMap (m_loserId exSemi2) = None \<and>
   n_name (findChildrenForMatch exSemi2 exMatches exPlayerMap) = ''Medvedev D. d. Unknown'' \<and>
   allNodes matchOrByeNamed (findChildrenForMatch exSemi2 exMatches exPlayerMap)"
proof -
  have s: "m_winnerId exSemi2 = ''medvedev-d''" "m_loserId exSemi2 = ''zverev-a''"
    by (simp_all add: exSemi2_def exMatch_def)
  have n: "exPlayerMap (m_loserId exSemi2) = None"
    by (simp add: s exPlayerMap_def exPlayers_def)
  from node_names[of exSemi2 exMatches exPlayerMap] n show ?thesis
    by (simp add: s playerName_exPlayerMap)
qed

text \<open>
  C10 as stated fails: in the tree of the second semifinal of the example the bye leaf of
  the winner is named \<open>Medvedev D.\<close>, not \<open>Medvedev D. d. BYE\<close>.
\<close>

theorem bye_node_name_counterexample:
  "\<not> allNodes matchNamed (findChildrenForMatch exSemi2 exMatches exPlayerMap)"
proof -
  have s: "m_round exSemi2 = SF" "m_winnerId exSemi2 = ''medvedev-d''"
    by (simp_all add: exSemi2_def exMatch_def)
  have q: "\<forall>x \<in> set exMatches. \<not> (m_round x = QF \<and> m_winnerId x = ''medvedev-d'')"
    by (simp add: exMatches_def exSemi1_def exSemi2_def exFinal_def exMatch_def)
  have "\<not> matchNamed (byeNode QF ''Medvedev D.'')"
    by (simp add: matchNamed_def byeNode_def)
  then show ?thesis
    by (subst allNodes_iff)
       (simp add: fcm_unfold s sideNode_bye[OF q] playerName_exPlayerMap allNodes_byeNode)
qed

section \<open>Verification: identifiers of tournaments and matches\<close>

lemma toInt32_wrap32: "toInt32 x = wrap32 x"
  by (simp add: toInt32_def wrap32_def signed_take_bit_eq_take_bit_shift take_bit_eq_mod)

lemma toInt32_cong:
  "a mod 4294967296 = b mod 4294967296 \<Longrightarrow> toInt32 a = toInt32 b"
  by (simp add: toInt32_def signed_take_bit_eq_iff_take_bit_eq take_bit_eq_mod)

lemma toInt32_mod: "toInt32 a mod 4294967296 = a mod 4294967296"
  using take_bit_signed_take_bit[of 32 31 a] by (simp add: toInt32_def take_bit_eq_mod)

lemma hashStep_eq: "hashStep hash ch = specHashStep hash ch"
proof -
  let ?c = "int (of_char ch)"
  have "shiftLeft hash 5 mod 4294967296 = (32 * toInt32 hash) mod 4294967296"
    by (simp add: shiftLeft_def toInt32_mod push_bit_eq_mult mult.commute)
  also have "\<dots> = (32 * hash) mod 4294967296"
    by (rule mod_mult_cong) (simp_all add: toInt32_mod)
  finally have "(shiftLeft hash 5 - hash + ?c) mod 4294967296 =
                (32 * hash - hash + ?c) mod 4294967296"
    by (intro mod_add_cong mod_diff_cong) simp_all
  then have "toInt32 (shiftLeft hash 5 - hash + ?c) = toInt32 (hash * 31 + ?c)"
    by (intro toInt32_cong) (simp add: algebra_simps)
  then show ?thesis
    by (simp add: hashStep_def specHashStep_def Let_def flip: toInt32_wrap32)
qed

lemma hashString_eq: "hashString str = specHash str"
proof -
  have "hashStep = specHashStep" by (intro ext) (rule hashStep_eq)
  then show ?thesis by (simp add: hashString_def specHash_def)
qed

lemma toInt32_range: "- (2 ^ 31) \<le> toInt32 a \<and> toInt32 a < 2 ^ 31"
  using signed_take_bit_int_greater_eq_minus_exp[of 31 a] signed_take_bit_int_less_exp[of 31 a]
  by (simp add: toInt32_def)


lemma specHashStep_collision:
  "specHashStep (specHashStep h CHR ''A'') CHR ''a'' =
   specHashStep (specHashStep h CHR ''B'') CHR ''B''"
proof -
  have "(toInt32 (h * 31 + 65) * 31 + 97) mod 4294967296 = ((h * 31 + 65) * 31 + 97) mod 4294967296"
    by (intro mod_add_cong mod_mult_cong) (simp_all add: toInt32_mod)
  moreover have "(toInt32 (h * 31 + 66) * 31 + 66) mod 4294967296 =
                 ((h * 31 + 66) * 31 + 66) mod 4294967296"
    by (intro mod_add_cong mod_mult_cong) (simp_all add: toInt32_mod)
  ultimately show ?thesis
    by (simp add: specHashStep_def flip: toInt32_wrap32) (rule toInt32_cong, simp add: algebra_simps)
qed

lemma specHash_collision: "specHash (p @ ''Aa'' @ s) = specHash (p @ ''BB'' @ s)"
  by (simp add: specHash_def specHashStep_collision)


lemma specHash_range: "- 2147483648 \<le> specHash key \<and> specHash key < 2147483648"
proof (cases key rule: rev_cases)
  case Nil
  then show ?thesis by (simp add: specHash_def)
next
  case (snoc ks k)
  then show ?thesis by (simp add: specHash_def specHashStep_def wrap32_def)
qed

text \<open>
  C7.  The hash loop of the source computes the fold of the specification: \<open>hashString\<close>
  is \<open>specHash\<close>, a signed 32-bit value.  A tournament id is the tag \<open>t\<close> and a match id
  the tag \<open>m\<close>, followed by the absolute value of that hash of the composite key.  Keys
  with equal hashes give equal ids, and such keys exist: the tournament names \<open>Aa\<close> and
  \<open>BB\<close> of one year and location have the same id.
\<close>

theorem hash_ids:
  "hashString key = specHash key \<and>
   - 2147483648 \<le> specHash key \<and> specHash key < 2147483648 \<and>
   createTournamentID year tournament location =
     ''t'' @ showInt \<bar>specHash (showNumber year @ ''-'' @ tournament @ ''-'' @ location)\<bar> \<and>
   createMatchID tournamentId date round winnerId loserId =
     ''m'' @ showInt \<bar>specHash (tournamentId @ ''-'' @ date @ ''-'' @ roundString round @ ''-''
                                   @ winnerId @ ''-'' @ loserId)\<bar> \<and>
   specHash (showNumber year @ ''-'' @ ''Aa'' @ ''-'' @ location) =
     specHash (showNumber year @ ''-'' @ ''BB'' @ ''-'' @ location) \<and>
   createTournamentID year ''Aa'' location = createTournamentID year ''BB'' location \<and>
   createTournamentID (Some 2024) ''Aa'' ''X'' = ''t534956728'' \<and>
   createTournamentID (Some 2024) ''BB'' ''X'' = ''t534956728''"
proof -
  have c: "specHash (showNumber year @ ''-'' @ ''Aa'' @ ''-'' @ location) =
           specHash (showNumber year @ ''-'' @ ''BB'' @ ''-'' @ location)"
    using specHash_collision[of "showNumber year @ ''-''" "''-'' @ location"] by simp
  have ids: "createTournamentID year tournament location =
     ''t'' @ showInt \<bar>specHash (showNumber year @ ''-'' @ tournament @ ''-'' @ location)\<bar>"
    "createMatchID tournamentId date round winnerId loserId =
     ''m'' @ showInt \<bar>specHash (tournamentId @ ''-'' @ date @ ''-'' @ roundString round @ ''-''
                                   @ winnerId @ ''-'' @ loserId)\<bar>"
    by (simp_all add: createTournamentID_def createMatchID_def hashString_eq)
  have same: "createTournamentID year ''Aa'' location = createTournamentID year ''BB'' location"
    using c by (simp add: createTournamentID_def hashString_eq)
  have e1: "createTournamentID (Some 2024) ''Aa'' ''X'' = ''t534956728''"
    by (simp add: createTournamentID_def showNumber_def hashString_def hashStep_def shiftLeft_def
          toInt32_def showInt_def showNat.simps digitChar_def)
  have e2: "createTournamentID (Some 2024) ''BB'' ''X'' = ''t534956728''"
    by (simp add: createTournamentID_def showNumber_def hashString_def hashStep_def shiftLeft_def
          toInt32_def showInt_def showNat.simps digitChar_def)
  from hashString_eq specHash_range c ids same e1 e2 show ?thesis by simp
qed

section \<open>Verification: the common-name pass\<close>

lemma map_of_setEntry: "map_of (setEntry k v l) k' = (if k' = k then Some v else map_of l k')"
  by (induction l) auto

lemma setEntry_idem: "setEntry k v (setEntry k v l) = setEntry k v l"
  by (induction l) auto

lemma filter_setEntry: "filter (\<lambda>p. fst p \<noteq> k) (setEntry k v l) = filter (\<lambda>p. fst p \<noteq> k) l"
  by (induction l) auto

lemma map_of_filter_key:
  "map_of (filter (\<lambda>p. fst p \<noteq> k) l) k' = (if k' = k then None else map_of l k')"
  by (induction l) auto

lemma mergeCommonName_name:
  "map_of (mergeCommonName table t) ''name'' = map_of t ''name''"
  by (simp add: mergeCommonName_def map_of_setEntry map_of_filter_key
        split: option.split jvalue.split)

lemma mergeCommonName_idem:
  "mergeCommonName table (mergeCommonName table t) = mergeCommonName table t"
proof -
  have "mergeCommonName table (mergeCommonName table t) =
        (case map_of t ''name'' of
           Some (JString formalName) \<Rightarrow>
             (case table formalName of
                Some commonName \<Rightarrow>
                  setEntry ''commonName'' (JString commonName) (mergeCommonName table t)
              | None \<Rightarrow> filter (\<lambda>p. fst p \<noteq> ''commonName'') (mergeCommonName table t))
         | _ \<Rightarrow> filter (\<lambda>p. fst p \<noteq> ''commonName'') (mergeCommonName table t))"
    by (subst mergeCommonName_def) (simp add: mergeCommonName_name)
  also have "\<dots> = mergeCommonName table t"
    by (simp add: mergeCommonName_def setEntry_idem split: option.split jvalue.split)
  finally show ?thesis .
qed

lemma map_fst_setEntry:
  "map fst (setEntry k v l) = (if k \<in> set (map fst l) then map fst l else map fst l @ [k])"
  by (induction l) auto

lemma map_fst_filter_key:
  "map fst (filter (\<lambda>p. fst p \<noteq> k) l) = filter (\<lambda>x. x \<noteq> k) (map fst l)"
  by (induction l) auto

lemma mergeCommonName_commonName:
  "map_of (mergeCommonName table t) ''commonName'' =
     (case map_of t ''name'' of
        Some (JString formalName) \<Rightarrow> map_option JString (table formalName)
      | _ \<Rightarrow> None)"
  by (simp add: mergeCommonName_def map_of_setEntry map_of_filter_key
        split: option.split jvalue.split)

lemma mergeCommonName_others:
  "filter (\<lambda>p. fst p \<noteq> ''commonName'') (mergeCommonName table t) =
     filter (\<lambda>p. fst p \<noteq> ''commonName'') t"
  by (simp add: mergeCommonName_def filter_setEntry split: option.split jvalue.split)

lemma mergeCommonName_keys:
  "map fst (mergeCommonName table t) =
     (case map_of (mergeCommonName table t) ''commonName'' of
        Some v \<Rightarrow>
          if ''commonName'' \<in> set (map fst t) then map fst t else map fst t @ [''commonName'']
      | None \<Rightarrow> filter (\<lambda>k. k \<noteq> ''commonName'') (map fst t))"
  by (simp add: mergeCommonName_def map_of_setEntry map_of_filter_key map_fst_setEntry
        map_fst_filter_key split: option.split jvalue.split)

lemma addCommonNames_example:
  "addCommonNames exTournamentObjects =
     [[(''id'', JString ''t101''), (''year'', JNumber 2024),
       (''name'', JString ''BNP Paribas Open''), (''location'', JString ''Indian Wells''),
       (''commonName'', JString ''Indian Wells'')],
      [(''id'', JString ''t102''), (''year'', JNumber 2024), (''name'', JString ''Laver Cup''),
       (''location'', JString ''Berlin'')]]"
  by (simp add: addCommonNames_def mergeCommonName_def exTournamentObjects_def nameMap_def
        nameMapEntries_def)

text \<open>
  C8.  The pass \<open>addCommonNames\<close>, with the table \<open>nameMap\<close> of the source, is idempotent:
  a second run leaves every object as the first run made it, property order included.
  After the pass, object by object, the property \<open>commonName\<close> holds the entry of
  \<open>nameMap\<close> for the formal name when the name is a key of the table and is absent when it
  is not; every other property is as before, in the same order; and the property
  \<open>commonName\<close> stands where it stood, or at the end when the object had none.  On the
  example the name \<open>BNP Paribas Open\<close> gets the common name \<open>Indian Wells\<close> and the stale
  common name of \<open>Laver Cup\<close> is removed.  The callback \<open>mergeCommonName\<close> has the same
  properties for any table.
\<close>

theorem common_names_idempotent:
  "addCommonNames (addCommonNames ts) = addCommonNames ts \<and>
   map (\<lambda>t. map_of t ''commonName'') (addCommonNames ts) =
     map (\<lambda>t. case map_of t ''name'' of
                 Some (JString formalName) \<Rightarrow> map_option JString (nameMap formalName)
               | _ \<Rightarrow> None) ts \<and>
   map (filter (\<lambda>p. fst p \<noteq> ''commonName'')) (addCommonNames ts) =
     map (filter (\<lambda>p. fst p \<noteq> ''commonName'')) ts \<and>
   map (map fst) (addCommonNames ts) =
     map (\<lambda>t. case (case map_of t ''name'' of
                       Some (JString formalName) \<Rightarrow> nameMap formalName
                     | _ \<Rightarrow> None) of
                 Some commonName \<Rightarrow>
                   if ''commonName'' \<in> set (map fst t) then map fst t
                   else map fst t @ [''commonName'']
               | None \<Rightarrow> filter (\<lambda>k. k \<noteq> ''commonName'') (map fst t)) ts \<and>
   addCommonNames exTournamentObjects =
     [[(''id'', JString ''t101''), (''year'', JNumber 2024),
       (''name'', JString ''BNP Paribas Open''), (''location'', JString ''Indian Wells''),
       (''commonName'', JString ''Indian Wells'')],
      [(''id'', JString ''t102''), (''year'', JNumber 2024), (''name'', JString ''Laver Cup''),
       (''location'', JString ''Berlin'')]] \<and>
   map (mergeCommonName table) (map (mergeCommonName table) ts) = map (mergeCommonName table) ts \<and>
   map_of (mergeCommonName table t) ''commonName'' =
     (case map_of t ''name'' of
        Some (JString formalName) \<Rightarrow> map_option JString (table formalName)
      | _ \<Rightarrow> None) \<and>
   filter (\<lambda>p. fst p \<noteq> ''commonName'') (mergeCommonName table t) =
     filter (\<lambda>p. fst p \<noteq> ''commonName'') t"
proof -
  have 1: "map (mergeCommonName tb) (map (mergeCommonName tb) ts) = map (mergeCommonName tb) ts"
    for tb
    by (simp add: mergeCommonName_idem)
  have 2: "addCommonNames (addCommonNames ts) = addCommonNames ts"
    using 1[of nameMap] by (simp add: addCommonNames_def)
  have 3: "map (\<lambda>t. map_of t ''commonName'') (addCommonNames ts) =
     map (\<lambda>t. case map_of t ''name'' of
                 Some (JString formalName) \<Rightarrow> map_option JString (nameMap formalName)
               | _ \<Rightarrow> None) ts"
    by (simp add: addCommonNames_def mergeCommonName_commonName)
  have 4: "map (filter (\<lambda>p. fst p \<noteq> ''commonName'')) (addCommonNames ts) =
     map (filter (\<lambda>p. fst p \<noteq> ''commonName'')) ts"
    by (simp add: addCommonNames_def mergeCommonName_others)
  have 5: "map (map fst) (addCommonNames ts) =
     map (\<lambda>t. case (case map_of t ''name'' of
                       Some (JString formalName) \<Rightarrow> nameMap formalName
                     | _ \<Rightarrow> None) of
                 Some commonName \<Rightarrow>
                   if ''commonName'' \<in> set (map fst t) then map fst t
                   else map fst t @ [''commonName'']
               | None \<Rightarrow> filter (\<lambda>k. k \<noteq> ''commonName'') (map fst t)) ts"
    by (auto simp: addCommonNames_def mergeCommonName_keys mergeCommonName_commonName
          split: option.split jvalue.split)
  from 2 3 4 5 addCommonNames_example 1[of table]
    mergeCommonName_commonName[of table t] mergeCommonName_others[of table t]
  show ?thesis by (intro conjI)
qed

section \<open>Verification: derived statistics\<close>

lemma computeDerived_upset:
  "d_upset (computeDerived m) = bothTruthy (m_wRank m) (m_lRank m) (\<lambda>wRank lRank. lRank < wRank)"
  by (simp add: computeDerived_def Let_def)

lemma upset_nonzero_ranks:
  "m_wRank m = Some wRank \<Longrightarrow> m_lRank m = Some lRank \<Longrightarrow> wRank \<noteq> 0 \<Longrightarrow> lRank \<noteq> 0 \<Longrightarrow>
   d_upset (computeDerived m) = Some (lRank < wRank)"
  by (simp add: computeDerived_upset bothTruthy_def)

lemma upset_unknown_rank:
  "m_wRank m = None \<or> m_lRank m = None \<Longrightarrow> d_upset (computeDerived m) = None"
  by (auto simp: computeDerived_upset bothTruthy_def split: option.split)

text \<open>
  C5.  For a match whose ranks are both known, one of them being 0, \<open>computeDerived\<close>
  leaves \<open>upset\<close> absent: the condition \<open>match.wRank && match.lRank\<close> reads the rank 0 as
  false.  For known ranks other than 0, and for an unknown rank, the result is as claimed
  (\<open>upset_nonzero_ranks\<close>, \<open>upset_unknown_rank\<close>).
\<close>

theorem upset_absent_for_rank_zero:
  "m_wRank exRankZero = Some 0 \<and> m_lRank exRankZero = Some 5 \<and>
   d_upset (computeDerived exRankZero) = None"
  by (simp add: computeDerived_upset bothTruthy_def exRankZero_def)

section \<open>Verification: the ingestion loop\<close>

text \<open>
  The set-score loop is the recorded sets of the row, and every match that the loop appends
  carries them.
\<close>

lemma scanSets_takeWhile:
  "scanSets pf row is =
     (let recorded = takeWhile (\<lambda>(w, l). w \<noteq> None \<or> l \<noteq> None)
                       (map (\<lambda>i. (normalizeNumber pf (wSlot row i),
                                   normalizeNumber pf (lSlot row i))) is)
      in (map (\<lambda>(w, l). orZero w) recorded, map (\<lambda>(w, l). orZero l) recorded))"
  by (induction "is") (auto simp: Let_def)

lemma scanSets_recorded:
  "scanSets pf row [1, 2, 3, 4, 5] =
     (map (\<lambda>(w, l). orZero w) (recordedSets pf row), map (\<lambda>(w, l). orZero l) (recordedSets pf row))"
  unfolding recordedSets_def slotScores_def by (subst scanSets_takeWhile) (simp add: Let_def)

lemma length_recordedSets: "length (recordedSets pf row) \<le> 5"
proof -
  have "length (recordedSets pf row) \<le> length (slotScores pf row)"
    unfolding recordedSets_def by (rule length_takeWhile_le)
  then show ?thesis by (simp add: slotScores_def)
qed

lemma buildMatch_unfold:
  "buildMatch pf row tournament date round bestOf winner loser =
     (let w = map (\<lambda>(w, l). orZero w) (recordedSets pf row);
          l = map (\<lambda>(w, l). orZero l) (recordedSets pf row);
          wsets = normalizeNumber pf (c_Wsets row);
          lsets = normalizeNumber pf (c_Lsets row);
          comment = normalizeValue (c_Comment row)
      in if recordedSets pf row = [] \<and> wsets = Some 0 \<and> lsets = Some 0 \<and>
            comment \<noteq> Some ''Retired'' \<and> comment \<noteq> Some ''Walkover''
         then None
         else Some
           \<lparr>m_id = createMatchID (t_id tournament) date round (p_id winner) (p_id loser),
            m_tournamentId = t_id tournament, m_date = date, m_round = round,
            m_bestOf = bestOf, m_winnerId = p_id winner, m_loserId = p_id loser,
            m_wRank = normalizeNumber pf (c_WRank row), m_lRank = normalizeNumber pf (c_LRank row),
            m_wPts = normalizeNumber pf (c_WPts row), m_lPts = normalizeNumber pf (c_LPts row),
            m_w = w, m_l = l, m_wsets = orZero wsets, m_lsets = orZero lsets,
            m_comment = comment\<rparr>)"
  unfolding buildMatch_def scanSets_recorded by (simp add: Let_def)

lemma buildMatch_scores:
  "buildMatch pf row t date r b w l = Some m \<Longrightarrow>
   m_w m = map (\<lambda>(w, l). orZero w) (recordedSets pf row) \<and>
   m_l m = map (\<lambda>(w, l). orZero l) (recordedSets pf row)"
  by (auto simp: buildMatch_unfold Let_def split: if_splits)

lemma buildMatch_wellScored: "buildMatch pf row t date r b w l = Some m \<Longrightarrow> wellScored m"
  using length_recordedSets[of pf row] by (auto dest!: buildMatch_scores simp: wellScored_def)

lemma ensurePlayer_fields [simp]:
  "allMatches (ensurePlayer n st) = allMatches st"
  "allDerived (ensurePlayer n st) = allDerived st"
  "warnings (ensurePlayer n st) = warnings st"
  "tournamentsMap (ensurePlayer n st) = tournamentsMap st"
  by (simp_all add: ensurePlayer_def Let_def split: prod.split)

lemma ensureTournament_fields [simp]:
  "allMatches (ensureTournament row y tn loc k st) = allMatches st"
  "allDerived (ensureTournament row y tn loc k st) = allDerived st"
  "warnings (ensureTournament row y tn loc k st) = warnings st"
  "playersMap (ensureTournament row y tn loc k st) = playersMap st"
  "playerIDs (ensureTournament row y tn loc k st) = playerIDs st"
  by (simp_all add: ensureTournament_def Let_def)

lemma resolveAndBuild_matches:
  "resolveAndBuild pf st row date year r b wn ln = Inr st' \<Longrightarrow>
   allMatches st' = allMatches st \<or>
   (\<exists>t w l m. buildMatch pf row t date r b w l = Some m \<and> allMatches st' = allMatches st @ [m])"
  unfolding resolveAndBuild_def Let_def
  by (auto split: option.splits)

lemma processDatedRow_matches:
  "processDatedRow pf st row date = Inr st' \<Longrightarrow>
   allMatches st' = allMatches st \<or>
   (\<exists>t r b w l m. buildMatch pf row t date r b w l = Some m \<and> allMatches st' = allMatches st @ [m])"
  unfolding processDatedRow_def Let_def
  by (auto split: option.splits prod.splits dest!: resolveAndBuild_matches)

lemma processRow_matches:
  "processRow pf st row = Inr st' \<Longrightarrow>
   allMatches st' = allMatches st \<or>
   (\<exists>t date r b w l m. buildMatch pf row t date r b w l = Some m \<and>
      allMatches st' = allMatches st @ [m])"
  unfolding processRow_def Let_def
  by (auto split: if_splits sum.splits prod.splits dest!: processDatedRow_matches)

lemma processRow_wellScored:
  "processRow pf st row = Inr st' \<Longrightarrow> list_all wellScored (allMatches st) \<Longrightarrow>
   list_all wellScored (allMatches st')"
  by (auto dest!: processRow_matches buildMatch_wellScored)

lemma processRows_wellScored:
  "processRows pf st rows = Inr st' \<Longrightarrow> list_all wellScored (allMatches st) \<Longrightarrow>
   list_all wellScored (allMatches st')"
proof (induction rows arbitrary: st)
  case Nil
  then show ?case by simp
next
  case (Cons row rows)
  then show ?case
    by (auto split: sum.splits dest: processRow_wellScored)
qed

lemma processFiles_wellScored:
  "processFiles pf st files = Inr st' \<Longrightarrow> list_all wellScored (allMatches st) \<Longrightarrow>
   list_all wellScored (allMatches st')"
proof (induction files arbitrary: st)
  case Nil
  then show ?case by simp
next
  case (Cons rows files)
  then show ?case
    by (auto split: sum.splits dest: processRows_wellScored)
qed

lemma buildMatch_None: "(buildMatch pf row t date r b w l = None) = noScoreData pf row"
  by (simp add: buildMatch_unfold noScoreData_def Let_def)


lemma ensurePlayer_has: "map_of (playersMap (ensurePlayer n st)) n \<noteq> None"
  by (auto simp: ensurePlayer_def Let_def map_of_setEntry split: prod.split)

lemma ensurePlayer_keeps:
  "map_of (playersMap st) k \<noteq> None \<Longrightarrow> map_of (playersMap (ensurePlayer n st)) k \<noteq> None"
  by (auto simp: ensurePlayer_def Let_def map_of_setEntry split: prod.split)

lemma ensureTournament_has:
  "map_of (tournamentsMap (ensureTournament row y tn loc k st)) k \<noteq> None"
  by (auto simp: ensureTournament_def Let_def map_of_setEntry)

lemma resolveAndBuild_Inr:
  "\<exists>st4 t w l.
     playersMap st4 = playersMap (ensurePlayer ln (ensurePlayer wn st)) \<and>
     playerIDs st4 = playerIDs (ensurePlayer ln (ensurePlayer wn st)) \<and>
     allMatches st4 = allMatches st \<and> allDerived st4 = allDerived st \<and>
     warnings st4 = warnings st \<and>
     resolveAndBuild pf st row date year r b wn ln =
       (case buildMatch pf row t date r b w l of
          None \<Rightarrow> Inr st4
        | Some m \<Rightarrow> Inr (st4\<lparr>allMatches := allMatches st4 @ [m],
                              allDerived := allDerived st4 @ [computeDerived m]\<rparr>))"
proof -
  let ?st3 = "ensurePlayer ln (ensurePlayer wn st)"
  obtain winner where w: "map_of (playersMap ?st3) wn = Some winner"
    using ensurePlayer_keeps[OF ensurePlayer_has[of wn st], of ln] by auto
  obtain loser where l: "map_of (playersMap ?st3) ln = Some loser"
    using ensurePlayer_has[of ln "ensurePlayer wn st"] by auto
  let ?tn = "case normalizeValue (c_Tournament row) of None \<Rightarrow> ''Unknown Tournament'' | Some n \<Rightarrow> n"
  let ?loc = "case normalizeValue (c_Location row) of None \<Rightarrow> ''Unknown Location'' | Some n \<Rightarrow> n"
  let ?key = "showNumber year @ ''-'' @ ?tn @ ''-'' @ ?loc"
  let ?st4 = "ensureTournament row year ?tn ?loc ?key ?st3"
  obtain t where t: "map_of (tournamentsMap ?st4) ?key = Some t"
    using ensureTournament_has[of row year ?tn ?loc ?key ?st3] by auto
  have "resolveAndBuild pf st row date year r b wn ln =
       (case buildMatch pf row t date r b winner loser of
          None \<Rightarrow> Inr ?st4
        | Some m \<Rightarrow> Inr (?st4\<lparr>allMatches := allMatches ?st4 @ [m],
                              allDerived := allDerived ?st4 @ [computeDerived m]\<rparr>))"
    unfolding resolveAndBuild_def Let_def using w l t by simp
  then show ?thesis
    by (intro exI[of _ ?st4] exI[of _ t] exI[of _ winner] exI[of _ loser]) simp
qed

lemma registry_ensurePlayer_cong:
  "registry st = registry st2 \<Longrightarrow> registry (ensurePlayer n st) = registry (ensurePlayer n st2)"
  by (simp add: registry_def ensurePlayer_def Let_def split: prod.split)

lemma registry_ensurePlayers_cong:
  "registry st = registry st2 \<Longrightarrow>
   registry (ensurePlayers names st) = registry (ensurePlayers names st2)"
  unfolding ensurePlayers_def
proof (induction names arbitrary: st st2)
  case Nil
  then show ?case by simp
next
  case (Cons n names)
  from Cons.IH[OF registry_ensurePlayer_cong[OF Cons.prems, of n]] show ?case by simp
qed

lemma ensurePlayers_append:
  "ensurePlayers (xs @ ys) st = ensurePlayers ys (ensurePlayers xs st)"
  by (simp add: ensurePlayers_def)

lemma processDatedRow_Inr:
  "\<exists>st'. processDatedRow pf st row date = Inr st' \<and>
     set (warnings st') \<subseteq> set (warnings st) \<union> set (snd (normalizeRound (c_Round row))) \<and>
     registry st' =
       registry (ensurePlayers
         (case (normalizeValue (c_Winner row), normalizeValue (c_Loser row)) of
            (Some winnerName, Some loserName) \<Rightarrow> [winnerName, loserName]
          | _ \<Rightarrow> []) st) \<and>
     (noScoreData pf row \<longrightarrow> allMatches st' = allMatches st \<and> allDerived st' = allDerived st) \<and>
     (\<not> noScoreData pf row \<and> normalizeValue (c_Winner row) \<noteq> None \<and>
      normalizeValue (c_Loser row) \<noteq> None \<longrightarrow>
        (\<exists>m. allMatches st' = allMatches st @ [m] \<and>
           m_w m = map (\<lambda>(w, l). orZero w) (recordedSets pf row) \<and>
           m_l m = map (\<lambda>(w, l). orZero l) (recordedSets pf row)))"
proof -
  obtain r rw where nr: "normalizeRound (c_Round row) = (r, rw)"
    by (cases "normalizeRound (c_Round row)")
  let ?st2 = "st\<lparr>warnings := warnings st @ rw\<rparr>"
  let ?b = "if normalizeNumber pf (c_BestOf row) = Some 5 then 5 else 3 :: int"
  have reg2: "registry ?st2 = registry st" by (simp add: registry_def)
  show ?thesis
  proof (cases "\<exists>wn ln. normalizeValue (c_Winner row) = Some wn \<and> normalizeValue (c_Loser row) = Some ln")
    case True
    then obtain wn ln where n: "normalizeValue (c_Winner row) = Some wn"
      "normalizeValue (c_Loser row) = Some ln" by auto
    have eq: "processDatedRow pf st row date =
        resolveAndBuild pf ?st2 row date (parseInt (Some (take 4 date))) r ?b wn ln"
      unfolding processDatedRow_def Let_def by (simp add: nr n)
    from resolveAndBuild_Inr[of ln wn ?st2 pf row date "parseInt (Some (take 4 date))" r ?b]
    obtain st4 t w l where r4:
      "playersMap st4 = playersMap (ensurePlayer ln (ensurePlayer wn ?st2))"
      "playerIDs st4 = playerIDs (ensurePlayer ln (ensurePlayer wn ?st2))"
      "allMatches st4 = allMatches ?st2" "allDerived st4 = allDerived ?st2"
      "warnings st4 = warnings ?st2"
      "resolveAndBuild pf ?st2 row date (parseInt (Some (take 4 date))) r ?b wn ln =
       (case buildMatch pf row t date r ?b w l of
          None \<Rightarrow> Inr st4
        | Some m \<Rightarrow> Inr (st4\<lparr>allMatches := allMatches st4 @ [m],
                              allDerived := allDerived st4 @ [computeDerived m]\<rparr>))"
      by blast
    have reg4: "registry st4 = registry (ensurePlayers [wn, ln] st)"
      using r4(1,2) registry_ensurePlayers_cong[OF reg2, of "[wn, ln]"]
      by (simp add: registry_def ensurePlayers_def)
    show ?thesis
    proof (cases "buildMatch pf row t date r ?b w l")
      case None
      then have "processDatedRow pf st row date = Inr st4" using eq r4(6) by simp
      moreover have "noScoreData pf row" using None buildMatch_None[of pf row t date r ?b w l] by simp
      ultimately show ?thesis using r4(3,4,5) reg4 by (simp add: n nr)
    next
      case (Some m)
      then have ns: "\<not> noScoreData pf row" using buildMatch_None[of pf row t date r ?b w l] by simp
      from Some have "processDatedRow pf st row date =
          Inr (st4\<lparr>allMatches := allMatches st4 @ [m],
                    allDerived := allDerived st4 @ [computeDerived m]\<rparr>)"
        using eq r4(6) by simp
      then show ?thesis using r4(3,5) reg4 ns buildMatch_scores[OF Some]
        by (simp add: n nr registry_def)
    qed
  next
    case False
    then have eq: "processDatedRow pf st row date = Inr ?st2"
      unfolding processDatedRow_def Let_def by (auto simp: nr split: option.splits)
    from False have names: "(case (normalizeValue (c_Winner row), normalizeValue (c_Loser row)) of
            (Some winnerName, Some loserName) \<Rightarrow> [winnerName, loserName]
          | _ \<Rightarrow> []) = []"
      by (auto split: option.splits)
    show ?thesis using eq reg2 names False by (auto simp: nr ensurePlayers_def)
  qed
qed

lemma processRow_Inl: "dateThrows pf row \<Longrightarrow> \<exists>e. processRow pf st row = Inl e"
  by (auto simp: dateThrows_def processRow_def split: sum.splits)

lemma processRow_Inr:
  assumes "\<not> dateThrows pf row"
  shows "\<exists>st'. processRow pf st row = Inr st' \<and>
     set (warnings st') \<subseteq> set (warnings st) \<union> set (normalizerWarnings pf row) \<and>
     registry st' = registry (ensurePlayers (rowPlayers pf row) st) \<and>
     (noScoreData pf row \<longrightarrow> allMatches st' = allMatches st \<and> allDerived st' = allDerived st) \<and>
     (\<not> noScoreData pf row \<and> rowPlayers pf row \<noteq> [] \<longrightarrow>
        (\<exists>m. allMatches st' = allMatches st @ [m] \<and>
           m_w m = map (\<lambda>(w, l). orZero w) (recordedSets pf row) \<and>
           m_l m = map (\<lambda>(w, l). orZero l) (recordedSets pf row)))"
proof (cases "falsy (c_Tournament row) \<or> falsy (c_Winner row) \<or> falsy (c_Loser row)
         \<or> falsy (c_Date row)")
  case True
  then show ?thesis
    by (simp add: processRow_def rowPlayers_def ensurePlayers_def)
next
  case False
  with assms obtain date dw where pd: "parseDate pf (orEmpty (c_Date row)) = Inr (date, dw)"
    by (auto simp: dateThrows_def split: sum.splits)
  let ?st1 = "st\<lparr>warnings := warnings st @ dw\<rparr>"
  have reg1: "registry ?st1 = registry st" by (simp add: registry_def)
  show ?thesis
  proof (cases "date = []")
    case True
    then have "processRow pf st row = Inr ?st1"
      using False pd by (simp add: processRow_def)
    then show ?thesis
      using False pd True reg1
      by (auto simp: rowPlayers_def ensurePlayers_def normalizerWarnings_def)
  next
    case ne: False
    have eq: "processRow pf st row = processDatedRow pf ?st1 row date"
      using False pd ne by (simp add: processRow_def)
    let ?names = "case (normalizeValue (c_Winner row), normalizeValue (c_Loser row)) of
            (Some winnerName, Some loserName) \<Rightarrow> [winnerName, loserName]
          | _ \<Rightarrow> []"
    have rp: "rowPlayers pf row = ?names"
      using False pd ne by (simp add: rowPlayers_def)
    from processDatedRow_Inr[of pf ?st1 row date]
    obtain st' where d:
      "processDatedRow pf ?st1 row date = Inr st'"
      "set (warnings st') \<subseteq> set (warnings ?st1) \<union> set (snd (normalizeRound (c_Round row)))"
      "registry st' = registry (ensurePlayers ?names ?st1)"
      "noScoreData pf row \<longrightarrow> allMatches st' = allMatches ?st1 \<and> allDerived st' = allDerived ?st1"
      "\<not> noScoreData pf row \<and> normalizeValue (c_Winner row) \<noteq> None \<and>
       normalizeValue (c_Loser row) \<noteq> None \<longrightarrow>
        (\<exists>m. allMatches st' = allMatches ?st1 @ [m] \<and>
           m_w m = map (\<lambda>(w, l). orZero w) (recordedSets pf row) \<and>
           m_l m = map (\<lambda>(w, l). orZero l) (recordedSets pf row))"
      by blast
    have w: "set (warnings st') \<subseteq> set (warnings st) \<union> set (normalizerWarnings pf row)"
      using d(2) pd by (auto simp: normalizerWarnings_def)
    have r: "registry st' = registry (ensurePlayers (rowPlayers pf row) st)"
      using d(3) registry_ensurePlayers_cong[OF reg1, of ?names] by (simp only: rp)
    have nn: "normalizeValue (c_Winner row) \<noteq> None \<and> normalizeValue (c_Loser row) \<noteq> None"
      if "rowPlayers pf row \<noteq> []"
      using that unfolding rp by (auto split: option.splits)
    from d(1,4,5) w r nn show ?thesis
      unfolding eq by (intro exI[of _ st']) simp
  qed
qed

lemma assignIds_snoc:
  "assignIds e (ds @ [n]) =
   assignIds e ds @ [(n, \<lparr>p_id = expectedId (e @ ds) n, p_name = n\<rparr>)]"
  by (induction ds arbitrary: e) simp_all

lemma map_fst_assignIds: "map fst (assignIds e ds) = ds"
  by (induction ds arbitrary: e) simp_all

lemma map_of_assignIds_None: "(map_of (assignIds e ds) n = None) = (n \<notin> set ds)"
  using map_fst_assignIds[of e ds] by (metis map_of_eq_None_iff set_map)

lemma setEntry_new: "k \<notin> fst ` set l \<Longrightarrow> setEntry k v l = l @ [(k, v)]"
  by (induction l) auto

lemma regInv_ensurePlayer:
  assumes "regInv ds st"
  shows "regInv (if n \<in> set ds then ds else ds @ [n]) (ensurePlayer n st)"
proof (cases "n \<in> set ds")
  case True
  then have "map_of (playersMap st) n \<noteq> None"
    using assms by (simp add: regInv_def map_of_assignIds_None)
  then show ?thesis using assms True by (auto simp: ensurePlayer_def)
next
  case False
  have pm: "playersMap st = assignIds [] ds" using assms by (simp add: regInv_def)
  have none: "map_of (playersMap st) n = None"
    using False by (simp add: pm map_of_assignIds_None)
  have fresh: "n \<notin> fst ` set (playersMap st)"
    using False map_fst_assignIds[of "[]" ds] by (simp add: pm flip: set_map)
  have ids: "playerIDs st (slugify n) = (case slugCount ds (slugify n) of 0 \<Rightarrow> None | Suc k \<Rightarrow> Some k)"
    using assms by (simp add: regInv_def)
  obtain newId ids' where c: "createPlayerID n (playerIDs st) = (newId, ids')"
    by (cases "createPlayerID n (playerIDs st)")
  have newId: "newId = expectedId ds n"
    using c ids
    by (auto simp: createPlayerID_def expectedId_def slugCount_def Let_def split: nat.splits)
  have ids': "ids' s = (case slugCount (ds @ [n]) s of 0 \<Rightarrow> None | Suc k \<Rightarrow> Some k)" for s
  proof (cases "s = slugify n")
    case True
    then show ?thesis using c ids
      by (auto simp: createPlayerID_def slugCount_def Let_def split: nat.splits)
  next
    case ne: False
    then have "ids' s = playerIDs st s" using c
      by (auto simp: createPlayerID_def Let_def split: option.splits)
    moreover have "slugCount (ds @ [n]) s = slugCount ds s" using ne by (auto simp: slugCount_def)
    ultimately show ?thesis using assms by (simp add: regInv_def)
  qed
  have "ensurePlayer n st =
        st\<lparr>playersMap := playersMap st @ [(n, \<lparr>p_id = newId, p_name = n\<rparr>)], playerIDs := ids'\<rparr>"
    using none c by (simp add: ensurePlayer_def setEntry_new[OF fresh])
  then show ?thesis
    using False ids' by (simp add: regInv_def pm assignIds_snoc newId)
qed

lemma regInv_ensurePlayers:
  "regInv ds st \<Longrightarrow>
   regInv (foldl (\<lambda>seen n. if n \<in> set seen then seen else seen @ [n]) ds names)
     (ensurePlayers names st)"
  unfolding ensurePlayers_def
proof (induction names arbitrary: ds st)
  case Nil
  then show ?case by simp
next
  case (Cons n names)
  from Cons.IH[OF regInv_ensurePlayer[OF Cons.prems, of n]] show ?case by simp
qed

lemma regInv_emptyState: "regInv [] emptyState"
  by (simp add: regInv_def emptyState_def slugCount_def)

lemma ensurePlayers_expected: "playersMap (ensurePlayers names emptyState) = expectedPlayers names"
  using regInv_ensurePlayers[OF regInv_emptyState, of names]
  by (simp add: regInv_def expectedPlayers_def firstOccurrences_def)

lemma processRow_registry:
  "processRow pf st row = Inr st' \<Longrightarrow> registry st' = registry (ensurePlayers (rowPlayers pf row) st)"
proof -
  assume a: "processRow pf st row = Inr st'"
  then have "\<not> dateThrows pf row" using processRow_Inl[of pf row st] by auto
  from processRow_Inr[OF this, of st] a show ?thesis by auto
qed

lemma processRows_registry:
  "processRows pf st rows = Inr st' \<Longrightarrow>
   registry st' = registry (ensurePlayers (concat (map (rowPlayers pf) rows)) st)"
proof (induction rows arbitrary: st)
  case Nil
  then show ?case by (simp add: ensurePlayers_def)
next
  case (Cons row rows)
  from Cons.prems obtain st1 where 1: "processRow pf st row = Inr st1"
    and 2: "processRows pf st1 rows = Inr st'"
    by (auto split: sum.splits)
  from Cons.IH[OF 2] registry_ensurePlayers_cong[OF processRow_registry[OF 1]]
  show ?case by (simp add: ensurePlayers_append)
qed

lemma processFiles_registry:
  "processFiles pf st files = Inr st' \<Longrightarrow>
   registry st' = registry (ensurePlayers (concat (map (rowPlayers pf) (concat files))) st)"
proof (induction files arbitrary: st)
  case Nil
  then show ?case by (simp add: ensurePlayers_def)
next
  case (Cons rows files)
  from Cons.prems obtain st1 where 1: "processRows pf st rows = Inr st1"
    and 2: "processFiles pf st1 files = Inr st'"
    by (auto split: sum.splits)
  from Cons.IH[OF 2] registry_ensurePlayers_cong[OF processRows_registry[OF 1]]
  show ?case by (simp add: ensurePlayers_append)
qed

lemma ex_parseDate:
  "parseDate utcPlatform ''01/28/24'' = Inr (''2024-01-28'', [])"
  "parseDate utcPlatform ''01/26/24'' = Inr (''2024-01-26'', [])"
  by code_simp+

lemma ex_rowPlayers:
  "rowPlayers utcPlatform exRow = [''Sinner J.'', ''Medvedev D.'']"
  "rowPlayers utcPlatform exRowNoScore = [''Sinner J.'', ''Djokovic N.'']"
  "rowPlayers utcPlatform exRowDiscarded = [''Sinner J.'', ''Djokovic N.'']"
  "rowPlayers utcPlatform exRowAlias = [''Sinner J'', ''Medvedev D.'']"
  by code_simp+

lemma ex_dateThrows:
  "\<not> dateThrows utcPlatform exRow" "\<not> dateThrows utcPlatform exRowNoScore"
  "\<not> dateThrows utcPlatform exRowDiscarded" "\<not> dateThrows utcPlatform exRowAlias"
  by code_simp+

lemma ex_recordedSets:
  "recordedSets utcPlatform exRow = [(Some 6, Some 4), (Some 3, None)]"
  "recordedSets utcPlatform exRowNoScore = []"
  "recordedSets utcPlatform exRowDiscarded = []"
  by code_simp+

lemma ex_noScoreData:
  "\<not> noScoreData utcPlatform exRow" "\<not> noScoreData utcPlatform exRowNoScore"
  "noScoreData utcPlatform exRowDiscarded"
  by code_simp+

lemma ex_expectedPlayers:
  "expectedPlayers [''Sinner J.'', ''Medvedev D.'', ''Sinner J.'', ''Djokovic N.'', ''Sinner J'',
                    ''Medvedev D.''] =
     [(''Sinner J.'', \<lparr>p_id = ''sinner-j'', p_name = ''Sinner J.''\<rparr>),
      (''Medvedev D.'', \<lparr>p_id = ''medvedev-d'', p_name = ''Medvedev D.''\<rparr>),
      (''Djokovic N.'', \<lparr>p_id = ''djokovic-n'', p_name = ''Djokovic N.''\<rparr>),
      (''Sinner J'', \<lparr>p_id = ''sinner-j-1'', p_name = ''Sinner J''\<rparr>)]"
  by code_simp

lemma processRows_Inr:
  "list_all (\<lambda>row. \<not> dateThrows pf row) rows \<Longrightarrow> \<exists>st'. processRows pf st rows = Inr st'"
proof (induction rows arbitrary: st)
  case Nil
  then show ?case by simp
next
  case (Cons row rows)
  then obtain st1 where "processRow pf st row = Inr st1"
    using processRow_Inr[of pf row st] by auto
  with Cons show ?case by simp
qed

lemma processFiles_Inr:
  "list_all (list_all (\<lambda>row. \<not> dateThrows pf row)) files \<Longrightarrow>
   \<exists>st'. processFiles pf st files = Inr st'"
proof (induction files arbitrary: st)
  case Nil
  then show ?case by simp
next
  case (Cons rows files)
  then obtain st1 where "processRows pf st rows = Inr st1"
    using processRows_Inr[of pf rows st] by auto
  with Cons show ?case by simp
qed

lemma assignIds_nth:
  "i < length ds \<Longrightarrow>
   assignIds e ds ! i = (ds ! i, \<lparr>p_id = expectedId (e @ take i ds) (ds ! i), p_name = ds ! i\<rparr>)"
proof (induction ds arbitrary: e i)
  case Nil
  then show ?case by simp
next
  case (Cons d ds)
  then show ?case by (cases i) simp_all
qed

lemma distinct_firstOccurrences_aux:
  "distinct seen \<Longrightarrow>
   distinct (foldl (\<lambda>seen n. if n \<in> set seen then seen else seen @ [n]) seen names) \<and>
   set (foldl (\<lambda>seen n. if n \<in> set seen then seen else seen @ [n]) seen names) =
     set seen \<union> set names"
  by (induction names arbitrary: seen) auto

lemma distinct_firstOccurrences:
  "distinct (firstOccurrences names) \<and> set (firstOccurrences names) = set names"
  using distinct_firstOccurrences_aux[of "[]" names] by (simp add: firstOccurrences_def)

lemma ingest_Some:
  "ingest pf csvFiles = Inr (Some st) \<Longrightarrow> processFiles pf emptyState csvFiles = Inr st"
  by (cases "processFiles pf emptyState csvFiles") (auto simp: ingest_def split: if_splits)

lemma processRow_scored:
  assumes "processRow pf st row = Inr st'" and "m \<in> set (allMatches st')"
  shows "m \<in> set (allMatches st) \<or> scoredFrom pf row m"
proof -
  from processRow_matches[OF assms(1)] show ?thesis
  proof
    assume "allMatches st' = allMatches st"
    with assms(2) show ?thesis by simp
  next
    assume "\<exists>t date r b w l m. buildMatch pf row t date r b w l = Some m \<and>
      allMatches st' = allMatches st @ [m]"
    then obtain t date r b w l m' where b: "buildMatch pf row t date r b w l = Some m'"
      and a: "allMatches st' = allMatches st @ [m']" by blast
    from buildMatch_scores[OF b] have "scoredFrom pf row m'" by (simp add: scoredFrom_def)
    with assms(2) a show ?thesis by auto
  qed
qed

lemma processRows_scored:
  "processRows pf st rows = Inr st' \<Longrightarrow> m \<in> set (allMatches st') \<Longrightarrow>
   m \<in> set (allMatches st) \<or> (\<exists>row \<in> set rows. scoredFrom pf row m)"
proof (induction rows arbitrary: st)
  case Nil
  then show ?case by simp
next
  case (Cons row rows)
  from Cons.prems(1) obtain st1 where 1: "processRow pf st row = Inr st1"
    and 2: "processRows pf st1 rows = Inr st'"
    by (auto split: sum.splits)
  from Cons.IH[OF 2 Cons.prems(2)] processRow_scored[OF 1, of m]
  show ?case by auto
qed

lemma processFiles_scored:
  "processFiles pf st files = Inr st' \<Longrightarrow> m \<in> set (allMatches st') \<Longrightarrow>
   m \<in> set (allMatches st) \<or> (\<exists>row \<in> set (concat files). scoredFrom pf row m)"
proof (induction files arbitrary: st)
  case Nil
  then show ?case by simp
next
  case (Cons rows files)
  from Cons.prems(1) obtain st1 where 1: "processRows pf st rows = Inr st1"
    and 2: "processFiles pf st1 files = Inr st'"
    by (auto split: sum.splits)
  from Cons.IH[OF 2 Cons.prems(2)] processRows_scored[OF 1, of m]
  show ?case by auto
qed

lemma kept_row:
  assumes "\<not> dateThrows pf row" and "\<not> noScoreData pf row" and "rowPlayers pf row \<noteq> []"
  shows "\<exists>st m. ingest pf [[row]] = Inr (Some st) \<and> allMatches st = [m] \<and>
           m_w m = map (\<lambda>(w, l). orZero w) (recordedSets pf row) \<and>
           m_l m = map (\<lambda>(w, l). orZero l) (recordedSets pf row)"
proof -
  from processRow_Inr[OF assms(1), of emptyState] assms(2,3)
  obtain st m where p: "processRow pf emptyState row = Inr st"
    and m: "allMatches st = allMatches emptyState @ [m]"
      "m_w m = map (\<lambda>(w, l). orZero w) (recordedSets pf row)"
      "m_l m = map (\<lambda>(w, l). orZero l) (recordedSets pf row)"
    by blast
  from p have "ingest pf [[row]] = Inr (Some st)"
    by (simp add: ingest_def)
  moreover from m(1) have "allMatches st = [m]" by (simp add: emptyState_def)
  ultimately show ?thesis using m(2,3) by blast
qed

lemma ex_scores: 
  "map (\<lambda>(w, l). orZero w) [(Some 6, Some 4), (Some 3, None :: int option)] = [6, 3]"
  "map (\<lambda>(w, l). orZero l) [(Some 6, Some 4), (Some 3 :: int option, None)] = [4, 0]"
  by (simp_all add: orZero_def)

text \<open>
  C9.  The set-score loop reads the slots 1 to 5 in order and stops at the first slot where
  both the winner's and the loser's games are absent (\<open>recordedSets\<close>); a slot with one side
  present contributes 0 for the other side (\<open>orZero\<close>).  The two score lists have the same
  length, at most 5; the match built from a row carries them; and every match of a run has
  score lists of equal length, at most 5, which are the scan of one of the rows read.
\<close>

theorem set_scores:
  "scanSets pf row [1, 2, 3, 4, 5] =
     (map (\<lambda>(w, l). orZero w) (recordedSets pf row), map (\<lambda>(w, l). orZero l) (recordedSets pf row)) \<and>
   length (fst (scanSets pf row [1, 2, 3, 4, 5])) = length (snd (scanSets pf row [1, 2, 3, 4, 5])) \<and>
   length (fst (scanSets pf row [1, 2, 3, 4, 5])) \<le> 5 \<and>
   (buildMatch pf row tournament date round bestOf winner loser = Some match \<longrightarrow>
      m_w match = fst (scanSets pf row [1, 2, 3, 4, 5]) \<and>
      m_l match = snd (scanSets pf row [1, 2, 3, 4, 5])) \<and>
   (ingest pf csvFiles = Inr (Some st) \<longrightarrow>
      (\<forall>m \<in> set (allMatches st).
         length (m_w m) = length (m_l m) \<and> length (m_w m) \<le> 5 \<and>
         (\<exists>row \<in> set (concat csvFiles). (m_w m, m_l m) = scanSets pf row [1, 2, 3, 4, 5])))"
proof -
  have 1: "scanSets pf row [1, 2, 3, 4, 5] =
     (map (\<lambda>(w, l). orZero w) (recordedSets pf row), map (\<lambda>(w, l). orZero l) (recordedSets pf row))"
    by (rule scanSets_recorded)
  have 2: "length (fst (scanSets pf row [1, 2, 3, 4, 5])) =
           length (snd (scanSets pf row [1, 2, 3, 4, 5]))"
    unfolding 1 by simp
  have 3: "length (fst (scanSets pf row [1, 2, 3, 4, 5])) \<le> 5"
    unfolding 1 using length_recordedSets[of pf row] by simp
  have 4: "buildMatch pf row tournament date round bestOf winner loser = Some match \<longrightarrow>
      m_w match = fst (scanSets pf row [1, 2, 3, 4, 5]) \<and>
      m_l match = snd (scanSets pf row [1, 2, 3, 4, 5])"
    unfolding 1 using buildMatch_scores[of pf row tournament date round bestOf winner loser match]
    by simp
  have 5: "ingest pf csvFiles = Inr (Some st) \<longrightarrow>
      (\<forall>m \<in> set (allMatches st). length (m_w m) = length (m_l m) \<and> length (m_w m) \<le> 5)"
  proof
    assume "ingest pf csvFiles = Inr (Some st)"
    then have "processFiles pf emptyState csvFiles = Inr st"
      by (rule ingest_Some)
    from processFiles_wellScored[OF this]
    have "list_all wellScored (allMatches st)" by (simp add: emptyState_def)
    then show "\<forall>m \<in> set (allMatches st). length (m_w m) = length (m_l m) \<and> length (m_w m) \<le> 5"
      unfolding list_all_iff wellScored_def .
  qed
  have 6: "ingest pf csvFiles = Inr (Some st) \<longrightarrow>
      (\<forall>m \<in> set (allMatches st).
         \<exists>row \<in> set (concat csvFiles). (m_w m, m_l m) = scanSets pf row [1, 2, 3, 4, 5])"
  proof (intro impI ballI)
    fix m
    assume "ingest pf csvFiles = Inr (Some st)" and m: "m \<in> set (allMatches st)"
    then have "processFiles pf emptyState csvFiles = Inr st"
      by (simp add: ingest_Some)
    from processFiles_scored[OF this m]
    show "\<exists>row \<in> set (concat csvFiles). (m_w m, m_l m) = scanSets pf row [1, 2, 3, 4, 5]"
      unfolding scanSets_recorded by (auto simp: emptyState_def scoredFrom_def)
  qed
  from 5 6 have b: "ingest pf csvFiles = Inr (Some st) \<longrightarrow>
      (\<forall>m \<in> set (allMatches st).
         length (m_w m) = length (m_l m) \<and> length (m_w m) \<le> 5 \<and>
         (\<exists>row \<in> set (concat csvFiles). (m_w m, m_l m) = scanSets pf row [1, 2, 3, 4, 5]))"
    by blast
  from 1 2 3 4 b show ?thesis by (intro conjI)
qed

theorem set_scores_witness:
  "scanSets utcPlatform exRow [1, 2, 3, 4, 5] = ([6, 3], [4, 0]) \<and>
   (\<exists>st m. ingest utcPlatform [[exRow]] = Inr (Some st) \<and> allMatches st = [m] \<and>
      m_w m = [6, 3] \<and> m_l m = [4, 0] \<and>
      length (m_w m) = length (m_l m) \<and> length (m_w m) \<le> 5)"
proof -
  have r: "rowPlayers utcPlatform exRow \<noteq> []" by (simp add: ex_rowPlayers)
  have k: "\<exists>st m. ingest utcPlatform [[exRow]] = Inr (Some st) \<and> allMatches st = [m] \<and>
           m_w m = [6, 3] \<and> m_l m = [4, 0]"
    using kept_row[OF ex_dateThrows(1) ex_noScoreData(1) r]
    unfolding ex_recordedSets ex_scores .
  then obtain st m where i: "ingest utcPlatform [[exRow]] = Inr (Some st)"
    and m: "allMatches st = [m]" "m_w m = [6, 3]" "m_l m = [4, 0]"
    by (elim exE conjE)
  note t = set_scores[of utcPlatform exRow _ _ _ _ _ _ _ "[[exRow]]" st]
  have s0: "scanSets utcPlatform exRow [1, 2, 3, 4, 5] =
     (map (\<lambda>(w, l). orZero w) (recordedSets utcPlatform exRow),
      map (\<lambda>(w, l). orZero l) (recordedSets utcPlatform exRow))"
    by (rule t[THEN conjunct1])
  have s: "scanSets utcPlatform exRow [1, 2, 3, 4, 5] = ([6, 3], [4, 0])"
    using s0 unfolding ex_recordedSets ex_scores .
  from t[THEN conjunct2, THEN conjunct2, THEN conjunct2, THEN conjunct2, THEN mp, OF i]
  have len: "length (m_w m) = length (m_l m)" "length (m_w m) \<le> 5"
    unfolding m(1) by simp_all
  from i m len have "\<exists>st m. ingest utcPlatform [[exRow]] = Inr (Some st) \<and> allMatches st = [m] \<and>
      m_w m = [6, 3] \<and> m_l m = [4, 0] \<and>
      length (m_w m) = length (m_l m) \<and> length (m_w m) \<le> 5"
    by (intro exI[of _ st] exI[of _ m] conjI)
  with s show ?thesis by (rule conjI)
qed




section \<open>Verification: player identifiers\<close>

text \<open>
  C6.  The registry after a sequence of names is a function of the distinct names in the
  order of their first occurrence: one player for each distinct name, keyed by the exact
  name; the identifier of the \<open>i\<close>-th distinct name is its bare slug when no earlier distinct
  name has the same slug, and the slug followed by \<open>-N\<close> otherwise, \<open>N\<close> being the number of
  earlier distinct names with that slug (1, 2, 3, ...).  The players of a run are the
  registry of the names encountered over all rows of all files.
\<close>

theorem player_ids:
  "playersMap (ensurePlayers names emptyState) = expectedPlayers names \<and>
   map fst (expectedPlayers names) = firstOccurrences names \<and>
   distinct (firstOccurrences names) \<and> set (firstOccurrences names) = set names \<and>
   (\<forall>i < length (firstOccurrences names).
      snd (expectedPlayers names ! i) =
        \<lparr>p_id = expectedId (take i (firstOccurrences names)) (firstOccurrences names ! i),
         p_name = firstOccurrences names ! i\<rparr>) \<and>
   (ingest pf csvFiles = Inr (Some st) \<longrightarrow>
      playersMap st = expectedPlayers (namesEncountered pf csvFiles) \<and>
      players st = map snd (expectedPlayers (namesEncountered pf csvFiles)))"
proof -
  have reg: "playersMap st = expectedPlayers (namesEncountered pf csvFiles)"
    if "ingest pf csvFiles = Inr (Some st)"
  proof -
    from that have "processFiles pf emptyState csvFiles = Inr st"
      by (rule ingest_Some)
    from processFiles_registry[OF this] show ?thesis
      by (simp add: registry_def namesEncountered_def ensurePlayers_expected)
  qed
  have nth: "\<forall>i < length (firstOccurrences names).
      snd (expectedPlayers names ! i) =
        \<lparr>p_id = expectedId (take i (firstOccurrences names)) (firstOccurrences names ! i),
         p_name = firstOccurrences names ! i\<rparr>"
    by (simp add: expectedPlayers_def assignIds_nth)
  from reg nth distinct_firstOccurrences[of names] ensurePlayers_expected[of names]
  show ?thesis by (simp add: players_def expectedPlayers_def map_fst_assignIds)
qed

theorem player_ids_witness:
  "\<exists>st. ingest utcPlatform exFiles = Inr (Some st) \<and>
     players st =
       [\<lparr>p_id = ''sinner-j'', p_name = ''Sinner J.''\<rparr>,
        \<lparr>p_id = ''medvedev-d'', p_name = ''Medvedev D.''\<rparr>,
        \<lparr>p_id = ''djokovic-n'', p_name = ''Djokovic N.''\<rparr>,
        \<lparr>p_id = ''sinner-j-1'', p_name = ''Sinner J''\<rparr>]"
proof -
  have "list_all (list_all (\<lambda>row. \<not> dateThrows utcPlatform row)) exFiles"
    by (simp add: exFiles_def ex_dateThrows)
  from processFiles_Inr[OF this, of emptyState]
  obtain st where "processFiles utcPlatform emptyState exFiles = Inr st" by blast
  then have i: "ingest utcPlatform exFiles = Inr (Some st)"
    by (simp add: ingest_def exFiles_def)
  have n: "namesEncountered utcPlatform exFiles =
    [''Sinner J.'', ''Medvedev D.'', ''Sinner J.'', ''Djokovic N.'', ''Sinner J'', ''Medvedev D.'']"
    by (simp add: namesEncountered_def exFiles_def ex_rowPlayers)
  from player_ids[of "[]" utcPlatform exFiles st] i
  have "players st = map snd (expectedPlayers (namesEncountered utcPlatform exFiles))"
    by simp
  then have "players st =
       [\<lparr>p_id = ''sinner-j'', p_name = ''Sinner J.''\<rparr>,
        \<lparr>p_id = ''medvedev-d'', p_name = ''Medvedev D.''\<rparr>,
        \<lparr>p_id = ''djokovic-n'', p_name = ''Djokovic N.''\<rparr>,
        \<lparr>p_id = ''sinner-j-1'', p_name = ''Sinner J''\<rparr>]"
    by (simp add: n ex_expectedPlayers)
  with i show ?thesis by blast
qed

section \<open>Verification: date parsing\<close>

lemma parseDate_blank_silent: "parseDate pf ''N/A'' = Inr ([], [])"
  by code_simp

lemma parseDate_other_shape_warns:
  "parseDate pf ''tomorrow'' = Inr ([], [''Could not parse date: tomorrow''])"
  by code_simp

lemma parseDate_examples:
  "parseDate utcPlatform ''2024-01-28'' = Inr (''2024-01-28'', [])"
  "parseDate utcPlatform ''01/28/2024'' = Inr (''2024-01-28'', [])"
  "parseDate utcPlatform ''01/28/24'' = Inr (''2024-01-28'', [])"
  by code_simp+

lemma parseDate_bad_parts: "parseDate pf ''a/b/c'' = Inl RangeError"
  by code_simp

lemma processRow_bad_date: "processRow pf st exRowBadDate = Inl RangeError"
  by (simp add: processRow_def exRowBadDate_def exRow_def emptyRow_def falsy_def orEmpty_def
      parseDate_bad_parts)

lemma processRows_after_exRow:
  "processRows utcPlatform emptyState [exRow, exRowBadDate] = Inl RangeError"
proof -
  from processRow_Inr[OF ex_dateThrows(1), of emptyState]
  obtain st' where "processRow utcPlatform emptyState exRow = Inr st'" by blast
  then show ?thesis by (simp add: processRow_bad_date)
qed

text \<open>
  C4.  On a date of three parts separated by \<open>/\<close> that are not numbers, and on a date with a
  hyphen and a four-character first part but no day, \<open>parseDate\<close> throws a \<open>RangeError\<close>: the
  \<open>Date\<close> built from \<open>NaN\<close> is invalid and \<open>toISOString\<close> throws on it.  The exception leaves
  the row loop and \<open>ingest\<close>, whatever the platform and whatever files follow, also after
  rows that were read successfully.
\<close>

theorem parseDate_throws_on_unparsable_parts:
  "parseDate pf ''a/b/c'' = Inl RangeError \<and>
   parseDate pf ''2024-01'' = Inl RangeError \<and>
   processRow pf st exRowBadDate = Inl RangeError \<and>
   ingest pf ([exRowBadDate] # files) = Inl RangeError \<and>
   ingest utcPlatform ([exRow, exRowBadDate] # files) = Inl RangeError"
proof -
  have 2: "parseDate pf ''2024-01'' = Inl RangeError" by code_simp
  have 4: "ingest pf ([exRowBadDate] # files) = Inl RangeError"
    by (simp add: ingest_def processRow_bad_date)
  have 5: "ingest utcPlatform ([exRow, exRowBadDate] # files) = Inl RangeError"
    unfolding ingest_def using processRows_after_exRow by simp
  from parseDate_bad_parts[of pf] 2 processRow_bad_date[of pf st] 4 5 show ?thesis
    by (intro conjI)
qed

end
